theory Spec2Isabelle
  imports Main
begin

section \<open>Instruction schedules (src/instructions.ts)\<close>

text \<open>
  The enum \<open>Instruction\<close>, in declaration order. Its last member \<open>ALL\<close> is written
  \<open>Instruction_ALL\<close>, since \<open>ALL\<close> is a binder of the logic.
\<close>

datatype Instruction =
    STATE_TRANSITION_PROPOSE
  | STATE_TRANSITION_COMMIT
  | OP_GENERATE
  | OP_SIGN
  | OP_SIGN_VALIDATE
  | IO_PREPARE_SEND
  | IO_SEND
  | IO_WAIT
  | KEY_GENERATE
  | Instruction_ALL

text \<open>The four keys of the objects \<open>Instructions\<close> and \<open>AckInstructions\<close>.\<close>

datatype ProtocolKind = Update | Setup | Install | Uninstall

text \<open>\<open>Instructions\<close>: the schedules of the initiating end, one list per key.\<close>

fun Instructions :: "ProtocolKind \<Rightarrow> Instruction list" where
  "Instructions Update =
     [STATE_TRANSITION_PROPOSE, OP_GENERATE, OP_SIGN, IO_PREPARE_SEND, IO_SEND, IO_WAIT,
      OP_SIGN_VALIDATE, STATE_TRANSITION_COMMIT]"
| "Instructions Setup =
     [STATE_TRANSITION_PROPOSE, OP_GENERATE, OP_SIGN, IO_PREPARE_SEND, IO_SEND, IO_WAIT,
      OP_SIGN_VALIDATE, STATE_TRANSITION_COMMIT]"
| "Instructions Install =
     [KEY_GENERATE, IO_PREPARE_SEND, IO_SEND, IO_WAIT, STATE_TRANSITION_PROPOSE, OP_GENERATE,
      OP_SIGN_VALIDATE, OP_SIGN, IO_PREPARE_SEND, IO_SEND, STATE_TRANSITION_COMMIT]"
| "Instructions Uninstall =
     [STATE_TRANSITION_PROPOSE, OP_GENERATE, OP_SIGN, IO_PREPARE_SEND, IO_SEND, IO_WAIT,
      OP_SIGN_VALIDATE, STATE_TRANSITION_COMMIT]"

text \<open>\<open>AckInstructions\<close>: the schedules of the receiving end.\<close>

fun AckInstructions :: "ProtocolKind \<Rightarrow> Instruction list" where
  "AckInstructions Update =
     [STATE_TRANSITION_PROPOSE, OP_GENERATE, OP_SIGN_VALIDATE, OP_SIGN, IO_PREPARE_SEND,
      IO_SEND, STATE_TRANSITION_COMMIT]"
| "AckInstructions Setup =
     [STATE_TRANSITION_PROPOSE, OP_GENERATE, OP_SIGN_VALIDATE, OP_SIGN, IO_PREPARE_SEND,
      IO_SEND, STATE_TRANSITION_COMMIT]"
| "AckInstructions Install =
     [KEY_GENERATE, STATE_TRANSITION_PROPOSE, OP_GENERATE, OP_SIGN, IO_PREPARE_SEND, IO_SEND,
      IO_WAIT, OP_SIGN_VALIDATE, STATE_TRANSITION_COMMIT]"
| "AckInstructions Uninstall =
     [STATE_TRANSITION_PROPOSE, OP_GENERATE, OP_SIGN_VALIDATE, OP_SIGN, IO_PREPARE_SEND,
      IO_SEND, STATE_TRANSITION_COMMIT]"


section \<open>The provider (src/packages/cf-wallet.js/src/provider.ts)\<close>

subsection \<open>Constants\<close>

text \<open>Milliseconds until a method request to the Node is considered timed out.\<close>

definition NODE_REQUEST_TIMEOUT :: nat where
  "NODE_REQUEST_TIMEOUT = 30000"

text \<open>
  Modelled from the spec: the enums \<open>Node.ErrorType\<close>, \<open>Node.EventName\<close>,
  \<open>Node.RpcMethodName\<close> (package @counterfactual/types) and \<open>EventType\<close> (./types) are
  imported by provider.ts and declared outside src/. The specification names one error tag
  and ERROR topic, the event names INSTALL, INSTALL_VIRTUAL and REJECT_INSTALL, and the method
  GET_APP_INSTANCE_DETAILS; type tags are strings, compared with \<open>===\<close>.
  \<open>Node_ErrorType_values\<close> is \<open>Object.values(Node.ErrorType)\<close>.
\<close>

definition Node_ErrorType_ERROR :: string where
  "Node_ErrorType_ERROR = ''error''"

definition Node_ErrorType_values :: "string list" where
  "Node_ErrorType_values = [Node_ErrorType_ERROR]"

definition EventType_ERROR :: string where
  "EventType_ERROR = ''error''"

definition EventType_INSTALL :: string where
  "EventType_INSTALL = ''install''"

definition EventType_INSTALL_VIRTUAL :: string where
  "EventType_INSTALL_VIRTUAL = ''installVirtual''"

definition EventType_REJECT_INSTALL :: string where
  "EventType_REJECT_INSTALL = ''rejectInstall''"

definition Node_EventName_INSTALL :: string where
  "Node_EventName_INSTALL = ''installEvent''"

definition Node_EventName_INSTALL_VIRTUAL :: string where
  "Node_EventName_INSTALL_VIRTUAL = ''installVirtualEvent''"

definition Node_EventName_REJECT_INSTALL :: string where
  "Node_EventName_REJECT_INSTALL = ''rejectInstallEvent''"

definition Node_RpcMethodName_GET_APP_INSTANCE_DETAILS :: string where
  "Node_RpcMethodName_GET_APP_INSTANCE_DETAILS = ''chan_getAppInstance''"

subsection \<open>Data\<close>

text \<open>
  \<open>AppInstanceInfo | AppInstanceJson\<close>: the details of an app instance as the Node sends
  them. provider.ts reads the field \<open>identityHash\<close> only; the other fields are carried
  along as \<open>info_rest\<close>.
\<close>

record AppInstanceInfo =
  identityHash :: string
  info_rest :: string

text \<open>
  Modelled from the spec: the class \<open>AppInstance\<close> (./app-instance) is not under src/.
  \<open>new AppInstance(info, provider)\<close> builds the record of an app instance from the details
  supplied, so the record keeps them; \<open>appInstance.identityHash\<close> is the identity it was
  built with.
\<close>

datatype AppInstance = AppInstance (built_from: AppInstanceInfo)


text \<open>
  \<open>Node.MethodParams\<close>: \<open>{appInstanceId}\<close> is the one parameter object that
  provider.ts builds by itself, from an id that is a string or \<open>undefined\<close>; every other
  shape is passed through.
\<close>

datatype MethodParams = AppInstanceIdParams "string option" | OtherParams string

text \<open>The request object that \<open>jsonRpcDeserialize\<close> returns.\<close>

record Request =
  methodName :: string
  parameters :: MethodParams
  request_id :: nat

text \<open>
  Messages. \<open>NodeResult\<close> is an object \<open>{type, data}\<close> (a \<open>Node.Event\<close>) or
  \<open>{type, result}\<close> (the \<open>result\<close> of an RPC message); \<open>Payload\<close> is what sits under
  \<open>data\<close> or \<open>result\<close>, with the shapes that provider.ts reads. \<open>JsonRpc i r\<close> is
  \<open>{jsonrpc: "2.0", result: r, id: i}\<close>, a \<open>JsonRpcResponse\<close> when the id is there and a
  \<open>JsonRpcNotification\<close> when it is not; \<open>NodeEvent r\<close> is a plain \<open>Node.Event\<close>,
  with neither \<open>jsonrpc\<close> nor \<open>id\<close>.

  The message texts that provider.ts builds with template literals are kept symbolic:
  \<open>RequestTimedOut r\<close> is \<open>`Request timed out: ${JSON.stringify(r)}`\<close>,
  \<open>UnexpectedResponseType m t\<close> is
  \<open>`Unexpected response type. Expected ${m}, got ${t}`\<close>, and \<open>NoInflightRequest m\<close> is
  \<open>`Response has no corresponding inflight request: ${JSON.stringify(m)}`\<close>.
\<close>

datatype Payload =
    AppInstanceIdData string
  | ParamsData string
  | AppInstanceData AppInstanceInfo
  | ErrorData string "ErrorMessage option"
  | OtherData string
and ErrorMessage =
    Text string
  | RequestTimedOut Request
  | UnexpectedResponseType string string
  | NoInflightRequest Message
and NodeResult = NodeResult (rtype: string) (rdata: Payload)
and Message =
    JsonRpc (msg_id: "nat option") (result: NodeResult)
  | NodeEvent NodeResult

text \<open>
  What a promise returned by \<open>callRawNodeMethod\<close> is settled with: \<open>resolve\<close> gets
  \<open>response.result\<close>; \<open>reject\<close> gets either a serialized response or, on timeout, a bare
  \<open>{type, data}\<close> object.
\<close>

datatype Settlement = Resolved NodeResult | Rejected Message

text \<open>
  What \<open>this.appInstances[id]\<close> can be. \<open>appInstances\<close> is a plain object \<open>{}\<close>,
  so beside the app instances stored in it, it has the members it inherits from
  \<open>Object.prototype\<close>: \<open>Inherited name\<close> is the member of that name.
\<close>

datatype Registered = Instance AppInstance | Inherited string

text \<open>
  What is passed to the subscribers: a \<open>{type, data}\<close> object as it came, or the
  event \<open>{type, data: {appInstance}}\<close> that the install handlers build.
\<close>

datatype Emitted = Raw NodeResult | Enriched string Registered

text \<open>
  The closure stored under \<open>requestListeners[requestId]\<close>: it captures \<open>methodName\<close>,
  \<open>requestId\<close> and the \<open>resolve\<close> and \<open>reject\<close> of its promise. Promises are numbered
  in the order \<open>callRawNodeMethod\<close> creates them.
\<close>

record Listener =
  l_methodName :: string
  l_requestId :: nat
  l_promise :: nat

text \<open>
  The closure passed to \<open>setTimeout\<close>: it captures \<open>requestId\<close>, \<open>reject\<close> and
  \<open>request\<close>; \<open>t_due\<close> is the time at which it may run.
\<close>

record Timer =
  t_due :: nat
  t_requestId :: nat
  t_promise :: nat
  t_request :: Request

text \<open>
  An async function suspended at \<open>await this.callRawNodeMethod(...)\<close>: the frame of
  \<open>getOrCreateAppInstance(id)\<close>, and under it either the frame of an install handler that
  will emit under the topic given, or a caller outside provider.ts.
\<close>

datatype Continuation = Resume "string option" "string option"

text \<open>
  What ends a handler early: a \<open>TypeError\<close> from reading a field of \<open>undefined\<close>, or
  the rejection that an \<open>await\<close> throws on. Nothing in provider.ts catches either.
\<close>

datatype Thrown = TypeError | Rethrown Message

text \<open>
  The provider: its three private fields, and beside them what it does to the world around it.
  \<open>emitted\<close> lists the calls of \<open>eventEmitter.emit(topic, payload)\<close>, \<open>sent\<close> the calls of
  \<open>nodeProvider.sendMessage\<close>, \<open>settled\<close> the calls of \<open>resolve\<close> and \<open>reject\<close>
  (with the promise they belong to), each in the order they were made. \<open>timers\<close> are the
  armed timeouts, \<open>awaiting\<close> the suspended frames by the promise they wait for, and
  \<open>jobs\<close> the frames whose promise has settled and that run when the current handler
  returns. \<open>thrown\<close> lists what was thrown out of a handler, or ended an async one.
\<close>

record Provider =
  requestListeners :: "nat \<rightharpoonup> Listener"
  appInstances :: "string \<rightharpoonup> AppInstance"
  emitted :: "(string \<times> Emitted) list"
  sent :: "Request list"
  timers :: "Timer list"
  promises :: nat
  settled :: "(nat \<times> Settlement) list"
  awaiting :: "nat \<rightharpoonup> Continuation"
  jobs :: "(Continuation \<times> Settlement) list"
  thrown :: "Thrown list"

definition new_Provider :: Provider where
  "new_Provider =
     \<lparr>requestListeners = Map.empty, appInstances = Map.empty, emitted = [], sent = [],
      timers = [], promises = 0, settled = [], awaiting = Map.empty, jobs = [],
      thrown = []\<rparr>"

subsection \<open>Helpers from outside provider.ts\<close>

text \<open>
  Modelled from the spec: \<open>jsonRpcDeserialize\<close> and \<open>jsonRpcSerializeAsResponse\<close>
  (package rpc-server) are not under src/. The request envelope is
  \<open>{jsonrpc: "2.0", method, params, id}\<close> and the request built from it names its method
  \<open>methodName\<close>; the response envelope is \<open>{jsonrpc: "2.0", result, id}\<close>.
\<close>

definition jsonRpcDeserialize :: "string \<Rightarrow> MethodParams \<Rightarrow> nat \<Rightarrow> Request" where
  "jsonRpcDeserialize method params requestId =
     \<lparr>methodName = method, parameters = params, request_id = requestId\<rparr>"

definition jsonRpcSerializeAsResponse :: "NodeResult \<Rightarrow> nat \<Rightarrow> Message" where
  "jsonRpcSerializeAsResponse r requestId = JsonRpc (Some requestId) r"

text \<open>A handler that ends by throwing.\<close>

definition throw :: "Thrown \<Rightarrow> Provider \<Rightarrow> Provider" where
  "throw x s = s\<lparr>thrown := thrown s @ [x]\<rparr>"

text \<open>\<open>eventEmitter.emit(topic, payload)\<close>.\<close>

definition emit :: "string \<Rightarrow> Emitted \<Rightarrow> Provider \<Rightarrow> Provider" where
  "emit topic payload s = s\<lparr>emitted := emitted s @ [(topic, payload)]\<rparr>"

text \<open>
  A call of \<open>resolve\<close> or \<open>reject\<close> of promise \<open>p\<close>. Every call is recorded. The
  promise itself takes the first one only, and the frame awaiting it, if there is one, is
  then queued.
\<close>

definition settle :: "nat \<Rightarrow> Settlement \<Rightarrow> Provider \<Rightarrow> Provider" where
  "settle p v s =
     s\<lparr>settled := settled s @ [(p, v)],
       jobs := (if p \<in> fst ` set (settled s) then jobs s
                else case awaiting s p of None \<Rightarrow> jobs s | Some k \<Rightarrow> jobs s @ [(k, v)])\<rparr>"

subsection \<open>callRawNodeMethod\<close>

text \<open>
  The listener that \<open>callRawNodeMethod\<close> stores, applied to \<open>response.result\<close>
  (lines 286 to 315).
\<close>

definition listener :: "Listener \<Rightarrow> NodeResult \<Rightarrow> Provider \<Rightarrow> Provider" where
  "listener l r s =
     (if rtype r = Node_ErrorType_ERROR then
        settle (l_promise l)
          (Rejected (jsonRpcSerializeAsResponse (NodeResult EventType_ERROR (rdata r))
             (l_requestId l))) s
      else if rtype r \<noteq> l_methodName l then
        settle (l_promise l)
          (Rejected (jsonRpcSerializeAsResponse
             (NodeResult EventType_ERROR
                (ErrorData ''unexpected_message_type''
                   (Some (UnexpectedResponseType (l_methodName l) (rtype r)))))
             (l_requestId l))) s
      else settle (l_promise l) (Resolved r) s)"

text \<open>
  \<open>handleNodeError\<close> (lines 384 to 391). \<open>requestId && this.requestListeners[requestId]\<close>
  is false when the id is missing or \<open>0\<close>, and when nothing is stored under it. A plain
  \<open>Node.Event\<close> has no \<open>result\<close>: reading \<open>error.result.type\<close> throws a TypeError
  before anything is emitted.
\<close>

fun handleNodeError :: "Message \<Rightarrow> Provider \<Rightarrow> Provider" where
  "handleNodeError (JsonRpc i r) s =
     emit (rtype r) (Raw r)
       (case i of
          None \<Rightarrow> s
        | Some requestId \<Rightarrow>
            (if requestId \<noteq> 0 then
               (case requestListeners s requestId of
                  None \<Rightarrow> s
                | Some l \<Rightarrow>
                    (listener l r s)
                      \<lparr>requestListeners := (requestListeners (listener l r s))(requestId := None)\<rparr>)
             else s))"
| "handleNodeError (NodeEvent r) s = throw TypeError s"

text \<open>
  \<open>callRawNodeMethod\<close> (lines 257 to 332), called when \<open>new Date().valueOf()\<close> is
  \<open>now\<close>; it returns the promise it creates. \<open>!request.methodName\<close> holds of the empty
  string.
\<close>

definition callRawNodeMethod ::
  "nat \<Rightarrow> string \<Rightarrow> MethodParams \<Rightarrow> Provider \<Rightarrow> nat \<times> Provider" where
  "callRawNodeMethod now method params s =
     (let requestId = now;
          p = promises s;
          s0 = s\<lparr>promises := Suc (promises s)\<rparr>;
          request = jsonRpcDeserialize method params requestId
      in if methodName request = [] then
           (p, handleNodeError
                 (JsonRpc (Some requestId)
                    (NodeResult EventType_ERROR (ErrorData ''unexpected_event_type'' None))) s0)
         else
           (p, s0\<lparr>requestListeners :=
                    (requestListeners s0)(requestId \<mapsto>
                       \<lparr>l_methodName = method, l_requestId = requestId, l_promise = p\<rparr>),
                  timers := timers s0 @
                    [\<lparr>t_due = now + NODE_REQUEST_TIMEOUT, t_requestId = requestId,
                      t_promise = p, t_request = request\<rparr>],
                  sent := sent s0 @ [request]\<rparr>))"

text \<open>The function passed to \<open>setTimeout\<close> (lines 317 to 328).\<close>

definition timeout_callback :: "Timer \<Rightarrow> Provider \<Rightarrow> Provider" where
  "timeout_callback t s =
     (if requestListeners s (t_requestId t) \<noteq> None then
        (settle (t_promise t)
           (Rejected (NodeEvent (NodeResult EventType_ERROR
              (ErrorData ''request_timeout'' (Some (RequestTimedOut (t_request t))))))) s)
          \<lparr>requestListeners := (requestListeners s)(t_requestId t := None)\<rparr>
      else s)"

subsection \<open>getOrCreateAppInstance\<close>

text \<open>
  The id that \<open>getOrCreateAppInstance\<close> receives is a string by its signature; the
  INSTALL handler passes \<open>undefined\<close> when the payload has no \<open>appInstanceId\<close>.
  As a key of \<open>this.appInstances\<close>, \<open>undefined\<close> is the property name
  \<open>"undefined"\<close>.
\<close>

fun property_key :: "string option \<Rightarrow> string" where
  "property_key (Some name) = name"
| "property_key None = ''undefined''"

text \<open>
  The names of the members of \<open>Object.prototype\<close>. For each of them
  \<open>name in this.appInstances\<close> is true from the start, and none of them is ever stored
  as an own property: \<open>getOrCreateAppInstance\<close> stores under names that are not in the
  object.
\<close>

definition Object_prototype_names :: "string list" where
  "Object_prototype_names =
     [''constructor'', ''__defineGetter__'', ''__defineSetter__'', ''hasOwnProperty'',
      ''__lookupGetter__'', ''__lookupSetter__'', ''isPrototypeOf'', ''propertyIsEnumerable'',
      ''toString'', ''valueOf'', ''__proto__'', ''toLocaleString'']"

text \<open>
  \<open>registry_get s name\<close> is \<open>this.appInstances[name]\<close>, an own property before an
  inherited one, and \<open>None\<close> exactly when \<open>name in this.appInstances\<close> is false.
\<close>

definition registry_get :: "Provider \<Rightarrow> string \<Rightarrow> Registered option" where
  "registry_get s name =
     (case appInstances s name of
        Some appInstance \<Rightarrow> Some (Instance appInstance)
      | None \<Rightarrow> if name \<in> set Object_prototype_names then Some (Inherited name) else None)"

text \<open>
  \<open>getOrCreateAppInstance\<close> (lines 342 to 360) up to its first suspension: it either
  returns what is in the registry under the id, or is suspended awaiting the promise of the
  details call it has just issued.
\<close>

datatype Async = Returned Registered | Awaiting nat

definition getOrCreateAppInstance ::
  "nat \<Rightarrow> string option \<Rightarrow> AppInstanceInfo option \<Rightarrow> Provider \<Rightarrow> Async \<times> Provider" where
  "getOrCreateAppInstance now appId info s =
     (case registry_get s (property_key appId) of
        Some cached \<Rightarrow> (Returned cached, s)
      | None \<Rightarrow>
          (case info of
             Some newInfo \<Rightarrow>
               (Returned (Instance (AppInstance newInfo)),
                s\<lparr>appInstances := (appInstances s)(property_key appId \<mapsto> AppInstance newInfo)\<rparr>)
           | None \<Rightarrow>
               (case callRawNodeMethod now Node_RpcMethodName_GET_APP_INSTANCE_DETAILS
                       (AppInstanceIdParams appId) s of
                  (p, s') \<Rightarrow> (Awaiting p, s'))))"

text \<open>
  The rest of \<open>getOrCreateAppInstance\<close>, run once the details call has settled: a
  rejection is thrown at the \<open>await\<close> and ends the frame (and the handler under it); a
  result is stored under the id, whatever is stored there by then, and handed to the frame
  below. A result without \<open>appInstance\<close> makes the constructor of \<open>AppInstance\<close> read a
  field of \<open>undefined\<close>, which throws as well. The frame exists only for an id that was
  not in the registry when the call was made, so never for an inherited name.
\<close>

fun run_job :: "Continuation \<times> Settlement \<Rightarrow> Provider \<Rightarrow> Provider" where
  "run_job (Resume appId topic, Resolved r) s =
     (case rdata r of
        AppInstanceData newInfo \<Rightarrow>
          (let s1 = s\<lparr>appInstances :=
                       (appInstances s)(property_key appId \<mapsto> AppInstance newInfo)\<rparr>
           in case topic of
                None \<Rightarrow> s1
              | Some t \<Rightarrow> emit t (Enriched t (Instance (AppInstance newInfo))) s1)
      | _ \<Rightarrow> throw TypeError s)"
| "run_job (Resume appId topic, Rejected e) s = throw (Rethrown e) s"

definition run_jobs :: "Provider \<Rightarrow> Provider" where
  "run_jobs s = fold run_job (jobs s) (s\<lparr>jobs := []\<rparr>)"

subsection \<open>Inbound messages\<close>

text \<open>
  \<open>handleNodeMethodResponse\<close> (lines 396 to 416); \<open>onNodeMessage\<close> calls it for
  messages with an id only.
\<close>

fun handleNodeMethodResponse :: "Message \<Rightarrow> Provider \<Rightarrow> Provider" where
  "handleNodeMethodResponse (JsonRpc (Some requestId) r) s =
     (case requestListeners s requestId of
        Some l \<Rightarrow>
          (listener l r s)
            \<lparr>requestListeners := (requestListeners (listener l r s))(requestId := None)\<rparr>
      | None \<Rightarrow>
          (let error = jsonRpcSerializeAsResponse
                 (NodeResult EventType_ERROR
                    (ErrorData ''orphaned_response''
                       (Some (NoInflightRequest (JsonRpc (Some requestId) r)))))
                 requestId
           in emit (rtype (result error)) (Raw (result error)) s))"
| "handleNodeMethodResponse (JsonRpc None r) s = s"
| "handleNodeMethodResponse (NodeEvent r) s = s"

text \<open>\<open>handleGenericEvent\<close> (lines 444 to 446).\<close>

definition handleGenericEvent :: "NodeResult \<Rightarrow> Provider \<Rightarrow> Provider" where
  "handleGenericEvent nodeEvent s = emit (rtype nodeEvent) (Raw nodeEvent) s"

text \<open>
  The install handlers (lines 451 to 495). \<open>enrich\<close> is what the three have in common:
  each awaits \<open>getOrCreateAppInstance\<close>, wraps the app instance in an event of its own
  type and emits that; when the app instance is returned without a details call the handler runs to its
  end, otherwise its frame is stored with the promise awaited. The casts of
  \<open>nodeEvent.data\<close> are not checked. On a payload of another shape, destructuring
  \<open>data.params\<close> and reading \<open>info.identityHash\<close> throw, and the handler ends there,
  while \<open>data.appInstanceId\<close> is just \<open>undefined\<close>, and the INSTALL handler goes on
  with that.
\<close>

definition enrich ::
  "nat \<Rightarrow> string option \<Rightarrow> AppInstanceInfo option \<Rightarrow> string \<Rightarrow> Provider \<Rightarrow> Provider" where
  "enrich now appId info topic s =
     (case getOrCreateAppInstance now appId info s of
        (Returned appInstance, s') \<Rightarrow> emit topic (Enriched topic appInstance) s'
      | (Awaiting p, s') \<Rightarrow> s'\<lparr>awaiting := (awaiting s')(p \<mapsto> Resume appId (Some topic))\<rparr>)"

definition handleInstallEvent :: "nat \<Rightarrow> NodeResult \<Rightarrow> Provider \<Rightarrow> Provider" where
  "handleInstallEvent now nodeEvent s =
     enrich now
       (case rdata nodeEvent of
          AppInstanceIdData appInstanceId \<Rightarrow> Some appInstanceId
        | _ \<Rightarrow> None)
       None EventType_INSTALL s"

definition handleInstallVirtualEvent :: "nat \<Rightarrow> NodeResult \<Rightarrow> Provider \<Rightarrow> Provider" where
  "handleInstallVirtualEvent now nodeEvent s =
     (case rdata nodeEvent of
        ParamsData appInstanceId \<Rightarrow>
          enrich now (Some appInstanceId) None EventType_INSTALL_VIRTUAL s
      | _ \<Rightarrow> throw TypeError s)"

definition handleRejectInstallEvent :: "nat \<Rightarrow> NodeResult \<Rightarrow> Provider \<Rightarrow> Provider" where
  "handleRejectInstallEvent now nodeEvent s =
     (case rdata nodeEvent of
        AppInstanceData info \<Rightarrow>
          enrich now (Some (identityHash info)) (Some info) EventType_REJECT_INSTALL s
      | _ \<Rightarrow> throw TypeError s)"

text \<open>\<open>handleNodeEvent\<close> (lines 421 to 439).\<close>

definition handleNodeEvent :: "nat \<Rightarrow> Message \<Rightarrow> Provider \<Rightarrow> Provider" where
  "handleNodeEvent now event s =
     (let nodeEvent = (case event of JsonRpc i r \<Rightarrow> r | NodeEvent r \<Rightarrow> r)
      in if rtype nodeEvent = Node_EventName_REJECT_INSTALL then
           handleRejectInstallEvent now nodeEvent s
         else if rtype nodeEvent = Node_EventName_INSTALL then
           handleInstallEvent now nodeEvent s
         else if rtype nodeEvent = Node_EventName_INSTALL_VIRTUAL then
           handleInstallVirtualEvent now nodeEvent s
         else handleGenericEvent nodeEvent s)"

text \<open>\<open>onNodeMessage\<close> (lines 365 to 379).\<close>

definition onNodeMessage :: "nat \<Rightarrow> Message \<Rightarrow> Provider \<Rightarrow> Provider" where
  "onNodeMessage now message s =
     (let type = (case message of JsonRpc i r \<Rightarrow> rtype r | NodeEvent r \<Rightarrow> rtype r)
      in if type \<in> set Node_ErrorType_values then handleNodeError message s
         else if (case message of JsonRpc i r \<Rightarrow> i \<noteq> None | NodeEvent r \<Rightarrow> False) then
           handleNodeMethodResponse message s
         else handleNodeEvent now message s)"

subsection \<open>The provider as a machine\<close>

text \<open>
  What happens to a provider, one turn of the event loop at a time: somebody calls
  \<open>callRawNodeMethod\<close> or \<open>getOrCreateAppInstance\<close>, the transport delivers a message,
  or a timer fires. Each carries the time \<open>new Date().valueOf()\<close> of that turn. A timer
  runs once, and not before it is due; nothing in provider.ts ever clears one. After the
  turn's handler the queued frames run.
\<close>

datatype Input =
    Call nat string MethodParams
  | GetOrCreate nat string "AppInstanceInfo option"
  | Deliver nat Message
  | Fire nat nat

definition fire :: "nat \<Rightarrow> nat \<Rightarrow> Provider \<Rightarrow> Provider" where
  "fire now k s =
     (if k < length (timers s) \<and> t_due (timers s ! k) \<le> now then
        timeout_callback (timers s ! k)
          (s\<lparr>timers := take k (timers s) @ drop (Suc k) (timers s)\<rparr>)
      else s)"

fun step :: "Input \<Rightarrow> Provider \<Rightarrow> Provider" where
  "step (Call now method params) s = run_jobs (snd (callRawNodeMethod now method params s))"
| "step (GetOrCreate now appId info) s =
     run_jobs
       (case getOrCreateAppInstance now (Some appId) info s of
          (Returned appInstance, s') \<Rightarrow> s'
        | (Awaiting p, s') \<Rightarrow> s'\<lparr>awaiting := (awaiting s')(p \<mapsto> Resume (Some appId) None)\<rparr>)"
| "step (Deliver now message) s = run_jobs (onNodeMessage now message s)"
| "step (Fire now k) s = run_jobs (fire now k s)"

fun run :: "Input list \<Rightarrow> Provider \<Rightarrow> Provider" where
  "run [] s = s"
| "run (e # es) s = run es (step e s)"

subsection \<open>What is observed of a run\<close>

text \<open>
  The part of the provider that the correlation of requests and responses lives in: the
  pending-request table, the armed timers, the number of promises created and the calls of
  \<open>resolve\<close> and \<open>reject\<close> made so far.
\<close>

definition core ::
  "Provider \<Rightarrow> (nat \<rightharpoonup> Listener) \<times> Timer list \<times> nat \<times> (nat \<times> Settlement) list" where
  "core s = (requestListeners s, timers s, promises s, settled s)"

text \<open>The clock value a turn reads, and whether a turn delivers a message with id \<open>i\<close>.\<close>

fun time_of :: "Input \<Rightarrow> nat" where
  "time_of (Call now method params) = now"
| "time_of (GetOrCreate now appId info) = now"
| "time_of (Deliver now message) = now"
| "time_of (Fire now k) = now"

fun addressed :: "nat \<Rightarrow> Input \<Rightarrow> bool" where
  "addressed i (Deliver now (JsonRpc j r)) = (j = Some i)"
| "addressed i e = False"

text \<open>
  \<open>settlements p s\<close>: what promise \<open>p\<close> has been settled with so far, one entry for each
  call of its \<open>resolve\<close> or \<open>reject\<close>. Settling exactly once is \<open>settlements p s = [v]\<close>.
\<close>

definition settlements :: "nat \<Rightarrow> Provider \<Rightarrow> Settlement list" where
  "settlements p s = map snd (filter (\<lambda>x. fst x = p) (settled s))"

text \<open>
  \<open>consistent s\<close>: the listeners, timers and settlements of \<open>s\<close> belong to promises that
  have been created. \<open>unreferenced p s\<close>: promise \<open>p\<close> exists, and neither a stored
  listener nor an armed timer holds its \<open>resolve\<close> or \<open>reject\<close>.
\<close>

definition consistent :: "Provider \<Rightarrow> bool" where
  "consistent s \<longleftrightarrow>
     (\<forall>i l. requestListeners s i = Some l \<longrightarrow> l_promise l < promises s)
     \<and> (\<forall>t \<in> set (timers s). t_promise t < promises s)
     \<and> (\<forall>x \<in> set (settled s). fst x < promises s)"

definition unreferenced :: "nat \<Rightarrow> Provider \<Rightarrow> bool" where
  "unreferenced p s \<longleftrightarrow>
     p < promises s
     \<and> (\<forall>i l. requestListeners s i = Some l \<longrightarrow> l_promise l \<noteq> p)
     \<and> (\<forall>t \<in> set (timers s). t_promise t \<noteq> p)"

text \<open>
  \<open>pending_call p i l0 t0 s\<close>: the call with promise \<open>p\<close> and request id \<open>i\<close> is in
  flight and nothing else interferes with it. Its listener \<open>l0\<close> is the entry under \<open>i\<close>
  and the only listener of \<open>p\<close>, its timer \<open>t0\<close> is armed, is the only timer of \<open>p\<close> and
  the only timer for id \<open>i\<close>, and \<open>p\<close> has not been settled.
\<close>

definition pending_call :: "nat \<Rightarrow> nat \<Rightarrow> Listener \<Rightarrow> Timer \<Rightarrow> Provider \<Rightarrow> bool" where
  "pending_call p i l0 t0 s \<longleftrightarrow>
     p < promises s
     \<and> requestListeners s i = Some l0
     \<and> (\<forall>j l. requestListeners s j = Some l \<and> l_promise l = p \<longrightarrow> j = i)
     \<and> filter (\<lambda>t. t_promise t = p) (timers s) = [t0]
     \<and> (\<forall>t \<in> set (timers s). t_requestId t = i \<longrightarrow> t = t0)
     \<and> settlements p s = []"

text \<open>
  \<open>answered_call p i t0 v s\<close>: the call with promise \<open>p\<close> and request id \<open>i\<close> has
  been settled with \<open>v\<close>, once. Its entry is gone, no listener holds \<open>p\<close>, and its timer
  \<open>t0\<close>, which nothing clears, is the only thing that may still hold \<open>p\<close>.
\<close>

definition answered_call :: "nat \<Rightarrow> nat \<Rightarrow> Timer \<Rightarrow> Settlement \<Rightarrow> Provider \<Rightarrow> bool" where
  "answered_call p i t0 v s \<longleftrightarrow>
     p < promises s
     \<and> requestListeners s i = None
     \<and> (\<forall>j l. requestListeners s j = Some l \<longrightarrow> l_promise l \<noteq> p)
     \<and> (filter (\<lambda>t. t_promise t = p) (timers s) = [t0]
          \<or> filter (\<lambda>t. t_promise t = p) (timers s) = [])
     \<and> settlements p s = [v]"

section \<open>Properties of the schedules\<close>




text \<open>
  C10: for each role the schedules of setup, update and uninstall are one and the same
  sequence, of 8 steps for the initiator and of 7 steps for the acknowledger; the install
  schedule is the only one that differs from them; and \<open>ALL\<close> (here
  \<open>Instruction_ALL\<close>) occurs in no schedule of either role.
\<close>

theorem C10_schedules_shared:
  "Instructions Setup = Instructions Update
   \<and> Instructions Uninstall = Instructions Update
   \<and> length (Instructions Update) = 8
   \<and> AckInstructions Setup = AckInstructions Update
   \<and> AckInstructions Uninstall = AckInstructions Update
   \<and> length (AckInstructions Update) = 7
   \<and> Instructions Install \<noteq> Instructions Update
   \<and> AckInstructions Install \<noteq> AckInstructions Update
   \<and> (\<forall>k. Instructions k = Instructions Update \<or> k = Install)
   \<and> (\<forall>k. AckInstructions k = AckInstructions Update \<or> k = Install)
   \<and> (\<forall>k. Instruction_ALL \<notin> set (Instructions k))
   \<and> (\<forall>k. Instruction_ALL \<notin> set (AckInstructions k))"
proof -
  have same: "\<forall>k. Instructions k = Instructions Update \<or> k = Install"
  proof
    fix k show "Instructions k = Instructions Update \<or> k = Install" by (cases k) simp_all
  qed
  have ack_same: "\<forall>k. AckInstructions k = AckInstructions Update \<or> k = Install"
  proof
    fix k show "AckInstructions k = AckInstructions Update \<or> k = Install"
      by (cases k) simp_all
  qed
  have no_all: "\<forall>k. Instruction_ALL \<notin> set (Instructions k)"
  proof
    fix k show "Instruction_ALL \<notin> set (Instructions k)" by (cases k) simp_all
  qed
  have ack_no_all: "\<forall>k. Instruction_ALL \<notin> set (AckInstructions k)"
  proof
    fix k show "Instruction_ALL \<notin> set (AckInstructions k)" by (cases k) simp_all
  qed
  show ?thesis using same ack_same no_all ack_no_all by simp
qed

section \<open>The registry of app instances\<close>

lemma throw_fields [simp]:
  "requestListeners (throw x s) = requestListeners s"
  "appInstances (throw x s) = appInstances s"
  "emitted (throw x s) = emitted s"
  "sent (throw x s) = sent s"
  "timers (throw x s) = timers s"
  "promises (throw x s) = promises s"
  "settled (throw x s) = settled s"
  "thrown (throw x s) = thrown s @ [x]"
  by (simp_all add: throw_def)

lemma listener_settles: "\<exists>v. listener l r s = settle (l_promise l) v s"
  by (auto simp add: listener_def)

lemma appInstances_settle: "appInstances (settle p v s) = appInstances s"
  by (simp add: settle_def)

lemma appInstances_listener: "appInstances (listener l r s) = appInstances s"
  by (simp add: listener_def appInstances_settle)

lemma appInstances_handleNodeError: "appInstances (handleNodeError m s) = appInstances s"
  by (cases m) (simp_all add: emit_def appInstances_listener split: option.splits)

lemma appInstances_callRawNodeMethod:
  "appInstances (snd (callRawNodeMethod now method params s)) = appInstances s"
  by (simp add: callRawNodeMethod_def Let_def appInstances_handleNodeError
      del: handleNodeError.simps)

lemma registry_get_Instance:
  "registry_get s name = Some (Instance a) \<longleftrightarrow> appInstances s name = Some a"
  by (simp add: registry_get_def split: option.splits)

lemma registry_get_stored:
  "registry_get (s\<lparr>appInstances := (appInstances s)(name \<mapsto> a)\<rparr>) name = Some (Instance a)"
  by (simp add: registry_get_def)

lemma getOrCreateAppInstance_cached:
  "registry_get s (property_key appId) = Some cached \<Longrightarrow>
     getOrCreateAppInstance now appId info s = (Returned cached, s)"
  by (simp add: getOrCreateAppInstance_def)

lemma getOrCreateAppInstance_Returned:
  assumes "getOrCreateAppInstance now appId info s = (Returned found, s')"
  shows "registry_get s' (property_key appId) = Some found"
proof (cases "registry_get s (property_key appId)")
  case (Some cached)
  with assms show ?thesis by (simp add: getOrCreateAppInstance_def)
next
  case None
  show ?thesis
  proof (cases info)
    case (Some newInfo)
    with None assms show ?thesis
      by (auto simp add: getOrCreateAppInstance_def registry_get_stored)
  next
    case no_info: None
    with None assms show ?thesis
      by (simp add: getOrCreateAppInstance_def split: prod.splits)
  qed
qed

lemma getOrCreateAppInstance_other_ids:
  assumes "k \<noteq> property_key appId"
  shows "appInstances (snd (getOrCreateAppInstance now appId info s)) k = appInstances s k"
proof (cases "registry_get s (property_key appId)")
  case (Some cached)
  then show ?thesis by (simp add: getOrCreateAppInstance_def)
next
  case None
  show ?thesis
  proof (cases info)
    case (Some newInfo)
    with None assms show ?thesis by (simp add: getOrCreateAppInstance_def)
  next
    case no_info: None
    have "appInstances (snd (callRawNodeMethod now Node_RpcMethodName_GET_APP_INSTANCE_DETAILS
              (AppInstanceIdParams appId) s)) k = appInstances s k"
      by (simp add: appInstances_callRawNodeMethod)
    with None no_info show ?thesis
      by (auto simp add: getOrCreateAppInstance_def split: prod.splits)
  qed
qed

text \<open>
  On a new provider the name of a member of \<open>Object.prototype\<close> is in the registry
  already, and get-or-create returns that member and stores nothing.
\<close>

lemma getOrCreateAppInstance_inherited_name:
  "getOrCreateAppInstance now (Some ''constructor'') info new_Provider =
     (Returned (Inherited ''constructor''), new_Provider)"
  by (simp add: getOrCreateAppInstance_def registry_get_def Object_prototype_names_def
      new_Provider_def)

text \<open>
  C6: \<open>getOrCreateAppInstance\<close> is idempotent against a cached entry. Called with an id
  (a string) that is in the registry, it returns the record stored there and leaves the
  provider as it was, whatever hint comes with the call. Whenever a call returns a record,
  that record is the one stored under the id, and a later call with the same id returns the
  same record again, whatever its hint. The registry is a map, so it holds one record per id
  at most, and a call touches no id but its own. The same holds of whatever else
  \<open>id in this.appInstances\<close> finds under the id.
\<close>

theorem C6_cached_entry_returned:
  "(appInstances s appId = Some cached \<longrightarrow>
      getOrCreateAppInstance now (Some appId) info s = (Returned (Instance cached), s))
   \<and> (getOrCreateAppInstance now (Some appId) info s = (Returned (Instance a), s') \<longrightarrow>
        appInstances s' appId = Some a
        \<and> getOrCreateAppInstance now' (Some appId) info' s' = (Returned (Instance a), s'))
   \<and> (\<forall>k. k \<noteq> appId \<longrightarrow>
        appInstances (snd (getOrCreateAppInstance now (Some appId) info s)) k =
          appInstances s k)
   \<and> (registry_get s appId = Some found \<longrightarrow>
        getOrCreateAppInstance now (Some appId) info s = (Returned found, s))
   \<and> (getOrCreateAppInstance now (Some appId) info s = (Returned found, s') \<longrightarrow>
        getOrCreateAppInstance now' (Some appId) info' s' = (Returned found, s'))"
proof (intro conjI impI allI)
  assume "appInstances s appId = Some cached"
  then have "registry_get s (property_key (Some appId)) = Some (Instance cached)"
    by (simp add: registry_get_Instance)
  then show "getOrCreateAppInstance now (Some appId) info s = (Returned (Instance cached), s)"
    by (rule getOrCreateAppInstance_cached)
next
  assume r: "getOrCreateAppInstance now (Some appId) info s = (Returned (Instance a), s')"
  from getOrCreateAppInstance_Returned [OF r]
  have stored: "registry_get s' (property_key (Some appId)) = Some (Instance a)" .
  then show "appInstances s' appId = Some a" by (simp add: registry_get_Instance)
  from stored
  show "getOrCreateAppInstance now' (Some appId) info' s' = (Returned (Instance a), s')"
    by (rule getOrCreateAppInstance_cached)
next
  fix k :: string
  assume "k \<noteq> appId"
  then show "appInstances (snd (getOrCreateAppInstance now (Some appId) info s)) k =
      appInstances s k"
    by (simp add: getOrCreateAppInstance_other_ids)
next
  assume "registry_get s appId = Some found"
  then have "registry_get s (property_key (Some appId)) = Some found" by simp
  then show "getOrCreateAppInstance now (Some appId) info s = (Returned found, s)"
    by (rule getOrCreateAppInstance_cached)
next
  assume r: "getOrCreateAppInstance now (Some appId) info s = (Returned found, s')"
  from getOrCreateAppInstance_Returned [OF r]
  show "getOrCreateAppInstance now' (Some appId) info' s' = (Returned found, s')"
    by (rule getOrCreateAppInstance_cached)
qed

theorem C6_cached_entry_returned_witness:
  "getOrCreateAppInstance 1000 (Some ''0xABC'')
       (Some \<lparr>identityHash = ''0xABC'', info_rest = ''first''\<rparr>) new_Provider
     = (Returned (Instance (AppInstance \<lparr>identityHash = ''0xABC'', info_rest = ''first''\<rparr>)),
        new_Provider\<lparr>appInstances :=
          [''0xABC'' \<mapsto> AppInstance \<lparr>identityHash = ''0xABC'', info_rest = ''first''\<rparr>]\<rparr>)
   \<and> getOrCreateAppInstance 2000 (Some ''0xABC'')
       (Some \<lparr>identityHash = ''0xABC'', info_rest = ''second''\<rparr>)
       (new_Provider\<lparr>appInstances :=
          [''0xABC'' \<mapsto> AppInstance \<lparr>identityHash = ''0xABC'', info_rest = ''first''\<rparr>]\<rparr>)
     = (Returned (Instance (AppInstance \<lparr>identityHash = ''0xABC'', info_rest = ''first''\<rparr>)),
        new_Provider\<lparr>appInstances :=
          [''0xABC'' \<mapsto> AppInstance \<lparr>identityHash = ''0xABC'', info_rest = ''first''\<rparr>]\<rparr>)"
proof -
  let ?a = "AppInstance \<lparr>identityHash = ''0xABC'', info_rest = ''first''\<rparr>"
  let ?s = "new_Provider\<lparr>appInstances := [''0xABC'' \<mapsto> ?a]\<rparr>"
  have first: "getOrCreateAppInstance 1000 (Some ''0xABC'')
      (Some \<lparr>identityHash = ''0xABC'', info_rest = ''first''\<rparr>) new_Provider
        = (Returned (Instance ?a), ?s)"
    by (simp add: getOrCreateAppInstance_def registry_get_def Object_prototype_names_def
        new_Provider_def)
  from C6_cached_entry_returned
    [of new_Provider "''0xABC''" ?a 1000
        "Some \<lparr>identityHash = ''0xABC'', info_rest = ''first''\<rparr>" ?a ?s 2000
        "Some \<lparr>identityHash = ''0xABC'', info_rest = ''second''\<rparr>"]
    first show ?thesis by simp
qed


text \<open>
  A REJECT_INSTALL event whose \<open>identityHash\<close> is the name of a member of
  \<open>Object.prototype\<close> is republished with that member, and nothing is registered.
\<close>

lemma reject_install_inherited_name:
  "emitted (onNodeMessage 2000
      (NodeEvent (NodeResult Node_EventName_REJECT_INSTALL
         (AppInstanceData \<lparr>identityHash = ''constructor'', info_rest = ''rejected''\<rparr>)))
      new_Provider) =
     [(EventType_REJECT_INSTALL,
       Enriched EventType_REJECT_INSTALL (Inherited ''constructor''))]
   \<and> appInstances (onNodeMessage 2000
      (NodeEvent (NodeResult Node_EventName_REJECT_INSTALL
         (AppInstanceData \<lparr>identityHash = ''constructor'', info_rest = ''rejected''\<rparr>)))
      new_Provider) = Map.empty"
  by (simp add: onNodeMessage_def handleNodeEvent_def handleRejectInstallEvent_def
      enrich_def getOrCreateAppInstance_def registry_get_def Object_prototype_names_def
      run_jobs_def emit_def new_Provider_def
      Node_ErrorType_values_def Node_ErrorType_ERROR_def Node_EventName_REJECT_INSTALL_def)




section \<open>Responses, orphans and errors\<close>

lemmas eval_defs = callRawNodeMethod_def jsonRpcDeserialize_def jsonRpcSerializeAsResponse_def
  run_jobs_def fire_def timeout_callback_def settle_def emit_def new_Provider_def
  NODE_REQUEST_TIMEOUT_def EventType_ERROR_def Node_ErrorType_values_def Node_ErrorType_ERROR_def
  Let_def

text \<open>
  What the stored listener does with a response of another type: a response whose id has an
  entry in the pending-request table, whose type tag is not an error tag and is not the
  method name that the listener stored under the id was made with, rejects the promise of
  that listener with an \<open>unexpected_message_type\<close> error. That rejection is the only
  settlement the message causes; the entry is removed, and nothing is emitted or thrown.
\<close>

lemma stored_listener_rejects_other_type:
  assumes pending: "requestListeners s requestId = Some l"
    and not_error: "rtype r \<notin> set Node_ErrorType_values"
    and mismatch: "rtype r \<noteq> l_methodName l"
  shows "settled (onNodeMessage now (JsonRpc (Some requestId) r) s) =
           settled s @
             [(l_promise l,
               Rejected (JsonRpc (Some (l_requestId l))
                 (NodeResult EventType_ERROR
                    (ErrorData ''unexpected_message_type''
                       (Some (UnexpectedResponseType (l_methodName l) (rtype r)))))))]
         \<and> requestListeners (onNodeMessage now (JsonRpc (Some requestId) r) s) requestId = None
         \<and> emitted (onNodeMessage now (JsonRpc (Some requestId) r) s) = emitted s
         \<and> thrown (onNodeMessage now (JsonRpc (Some requestId) r) s) = thrown s"
proof -
  from not_error have ne: "rtype r \<noteq> Node_ErrorType_ERROR"
    by (simp add: Node_ErrorType_values_def)
  have route: "onNodeMessage now (JsonRpc (Some requestId) r) s =
      (listener l r s)\<lparr>requestListeners := (requestListeners (listener l r s))(requestId := None)\<rparr>"
    using not_error pending by (simp add: onNodeMessage_def)
  have lis: "listener l r s =
      settle (l_promise l)
        (Rejected (jsonRpcSerializeAsResponse
           (NodeResult EventType_ERROR
              (ErrorData ''unexpected_message_type''
                 (Some (UnexpectedResponseType (l_methodName l) (rtype r)))))
           (l_requestId l))) s"
    using ne mismatch by (simp add: listener_def)
  show ?thesis
    unfolding route lis by (simp add: settle_def jsonRpcSerializeAsResponse_def)
qed

text \<open>
  C4: a response whose id has no entry in the pending-request table, and whose type tag is
  not an error tag, changes one thing only: an error event with \<open>errorName\<close>
  \<open>orphaned_response\<close> is emitted under the ERROR topic. No promise is settled and
  nothing is thrown, so the provider goes on with the next message.
\<close>

theorem C4_orphaned_response:
  assumes no_entry: "requestListeners s requestId = None"
    and not_error: "rtype r \<notin> set Node_ErrorType_values"
  shows "onNodeMessage now (JsonRpc (Some requestId) r) s =
           s\<lparr>emitted := emitted s @
               [(EventType_ERROR,
                 Raw (NodeResult EventType_ERROR
                        (ErrorData ''orphaned_response''
                           (Some (NoInflightRequest (JsonRpc (Some requestId) r))))))]\<rparr>"
  using assms
  by (simp add: onNodeMessage_def jsonRpcSerializeAsResponse_def emit_def)

theorem C4_orphaned_response_witness:
  "requestListeners new_Provider 7 = None
   \<and> rtype (NodeResult ''chan_install'' (OtherData [])) \<notin> set Node_ErrorType_values
   \<and> emitted (onNodeMessage 1200 (JsonRpc (Some 7) (NodeResult ''chan_install'' (OtherData [])))
        new_Provider) =
       [(EventType_ERROR,
         Raw (NodeResult EventType_ERROR
                (ErrorData ''orphaned_response''
                   (Some (NoInflightRequest
                      (JsonRpc (Some 7) (NodeResult ''chan_install'' (OtherData []))))))))]
   \<and> settled (onNodeMessage 1200 (JsonRpc (Some 7) (NodeResult ''chan_install'' (OtherData [])))
        new_Provider) = []"
proof -
  let ?r = "NodeResult ''chan_install'' (OtherData [])"
  have h1: "requestListeners new_Provider 7 = None" by (simp add: new_Provider_def)
  have h2: "rtype ?r \<notin> set Node_ErrorType_values" by (simp add: eval_defs)
  from C4_orphaned_response [OF h1 h2, of 1200] h1 h2 show ?thesis
    by (simp add: new_Provider_def)
qed

text \<open>
  What happens to an RPC message with an error type tag: it is always republished, as it
  came, under its type, which is the ERROR topic, and nothing is thrown. When its id is one
  that \<open>requestId &&\<close> lets through and there is an entry under it, the promise of the
  listener stored there is rejected with the error and the entry is removed; otherwise no
  promise is settled and the table stays as it is.
\<close>

lemma rpc_error_republished:
  assumes error_tag: "rtype r \<in> set Node_ErrorType_values"
  shows "emitted (onNodeMessage now (JsonRpc i r) s) = emitted s @ [(rtype r, Raw r)]
         \<and> rtype r = EventType_ERROR
         \<and> thrown (onNodeMessage now (JsonRpc i r) s) = thrown s
         \<and> (\<forall>requestId l.
               i = Some requestId \<and> requestId \<noteq> 0 \<and> requestListeners s requestId = Some l \<longrightarrow>
                 settled (onNodeMessage now (JsonRpc i r) s) =
                   settled s @
                     [(l_promise l,
                       Rejected (JsonRpc (Some (l_requestId l))
                                   (NodeResult EventType_ERROR (rdata r))))]
                 \<and> requestListeners (onNodeMessage now (JsonRpc i r) s) requestId = None)
         \<and> ((\<forall>requestId. i = Some requestId \<longrightarrow> requestId = 0 \<or> requestListeners s requestId = None) \<longrightarrow>
               settled (onNodeMessage now (JsonRpc i r) s) = settled s
               \<and> requestListeners (onNodeMessage now (JsonRpc i r) s) = requestListeners s)"
proof -
  from error_tag have tag: "rtype r = Node_ErrorType_ERROR"
    by (simp add: Node_ErrorType_values_def)
  have route: "onNodeMessage now (JsonRpc i r) s = handleNodeError (JsonRpc i r) s"
    using error_tag by (simp add: onNodeMessage_def)
  show ?thesis
    unfolding route using tag
    by (auto simp add: emit_def listener_def settle_def jsonRpcSerializeAsResponse_def
        Node_ErrorType_ERROR_def EventType_ERROR_def split: option.splits)
qed

text \<open>
  C5, on the code: \<open>onNodeMessage\<close> reads the type tag of a plain \<open>{type, data}\<close>
  message as well as that of an RPC message, and hands a plain message with an error tag to
  \<open>handleNodeError\<close>. That reads \<open>error.result.type\<close>, and a plain message has no
  \<open>result\<close>: a TypeError is thrown before anything is emitted, so such an error is not
  republished under the ERROR topic.
\<close>

theorem C5_plain_error_message_throws:
  assumes "rtype r \<in> set Node_ErrorType_values"
  shows "onNodeMessage now (NodeEvent r) s = throw TypeError s
         \<and> emitted (onNodeMessage now (NodeEvent r) s) = emitted s
         \<and> thrown (onNodeMessage now (NodeEvent r) s) = thrown s @ [TypeError]"
  using assms by (simp add: onNodeMessage_def)

theorem C5_plain_error_message_throws_witness:
  "rtype (NodeResult ''error'' (ErrorData ''music_too_loud'' (Some (Text ''Music too loud''))))
     \<in> set Node_ErrorType_values
   \<and> emitted (onNodeMessage 1200
        (NodeEvent (NodeResult ''error''
           (ErrorData ''music_too_loud'' (Some (Text ''Music too loud''))))) new_Provider) = []
   \<and> thrown (onNodeMessage 1200
        (NodeEvent (NodeResult ''error''
           (ErrorData ''music_too_loud'' (Some (Text ''Music too loud''))))) new_Provider) =
       [TypeError]"
proof -
  let ?r = "NodeResult ''error'' (ErrorData ''music_too_loud'' (Some (Text ''Music too loud'')))"
  have h: "rtype ?r \<in> set Node_ErrorType_values" by (simp add: eval_defs)
  from C5_plain_error_message_throws [OF h, of 1200 new_Provider] h show ?thesis
    by (simp add: new_Provider_def)
qed

section \<open>Calls in flight\<close>

subsection \<open>What a turn does to the core\<close>

lemma core_emit: "core (emit topic payload s) = core s"
  by (simp add: core_def emit_def)

lemma core_throw [simp]: "core (throw x s) = core s"
  by (simp add: core_def)

lemma core_appInstances_update: "core (s\<lparr>appInstances := m\<rparr>) = core s"
  by (simp add: core_def)

lemma core_awaiting_update: "core (s\<lparr>awaiting := m\<rparr>) = core s"
  by (simp add: core_def)

lemma core_jobs_update: "core (s\<lparr>jobs := js\<rparr>) = core s"
  by (simp add: core_def)

lemma core_run_job: "core (run_job j s) = core s"
  by (cases "(j, s)" rule: run_job.cases)
     (simp_all add: core_emit core_appInstances_update Let_def split: Payload.splits option.splits)

lemma core_fold_run_job: "core (fold run_job js s) = core s"
  by (induction js arbitrary: s) (simp_all add: core_run_job)

lemma core_run_jobs: "core (run_jobs s) = core s"
  by (simp add: run_jobs_def core_fold_run_job core_jobs_update)

lemma core_getOrCreateAppInstance:
  "core (snd (getOrCreateAppInstance now appId info s)) = core s
   \<or> core (snd (getOrCreateAppInstance now appId info s)) =
       core (snd (callRawNodeMethod now Node_RpcMethodName_GET_APP_INSTANCE_DETAILS
                    (AppInstanceIdParams appId) s))"
  by (auto simp add: getOrCreateAppInstance_def core_appInstances_update
      split: option.splits prod.splits)

lemma core_enrich:
  "core (enrich now appId info topic s) = core (snd (getOrCreateAppInstance now appId info s))"
  by (simp add: enrich_def core_emit core_awaiting_update split: prod.splits Async.splits)

lemma core_handleNodeEvent:
  "core (handleNodeEvent now event s) = core s
   \<or> (\<exists>appId. core (handleNodeEvent now event s) =
         core (snd (callRawNodeMethod now Node_RpcMethodName_GET_APP_INSTANCE_DETAILS
                      (AppInstanceIdParams appId) s)))"
proof -
  have e: "\<And>appId info topic. core (enrich now appId info topic s) = core s
     \<or> (\<exists>a. core (enrich now appId info topic s) =
         core (snd (callRawNodeMethod now Node_RpcMethodName_GET_APP_INSTANCE_DETAILS
                      (AppInstanceIdParams a) s)))"
    using core_getOrCreateAppInstance by (simp add: core_enrich) blast
  show ?thesis
    unfolding handleNodeEvent_def handleRejectInstallEvent_def handleInstallEvent_def
      handleInstallVirtualEvent_def handleGenericEvent_def Let_def
    using e by (simp add: core_emit split: Payload.splits)
qed

lemma core_step:
  "core (step e s) = core s
   \<or> (\<exists>method params. core (step e s) = core (snd (callRawNodeMethod (time_of e) method params s)))
   \<or> (\<exists>now i r. e = Deliver now (JsonRpc i r) \<and> rtype r \<in> set Node_ErrorType_values
         \<and> core (step e s) = core (handleNodeError (JsonRpc i r) s))
   \<or> (\<exists>now i r. e = Deliver now (JsonRpc (Some i) r)
         \<and> core (step e s) = core (handleNodeMethodResponse (JsonRpc (Some i) r) s))
   \<or> (\<exists>now k. e = Fire now k \<and> core (step e s) = core (fire now k s))"
proof (cases e)
  case (Call now m ps)
  then show ?thesis by (auto simp add: core_run_jobs)
next
  case (GetOrCreate now appId info)
  have "core (step e s) = core (snd (getOrCreateAppInstance now (Some appId) info s))"
    unfolding GetOrCreate
    by (simp add: core_run_jobs core_awaiting_update split: prod.splits Async.splits)
  with core_getOrCreateAppInstance [of now "Some appId" info s] GetOrCreate show ?thesis
    by auto
next
  case (Deliver now message)
  show ?thesis
  proof (cases message)
    case (JsonRpc i r)
    show ?thesis
    proof (cases "rtype r \<in> set Node_ErrorType_values")
      case True
      with Deliver JsonRpc show ?thesis
        by (simp add: core_run_jobs onNodeMessage_def del: handleNodeError.simps)
    next
      case False
      show ?thesis
      proof (cases i)
        case None
        with False Deliver JsonRpc
        have "core (step e s) = core (handleNodeEvent now message s)"
          by (simp add: core_run_jobs onNodeMessage_def)
        with core_handleNodeEvent [of now message s] Deliver show ?thesis by auto
      next
        case (Some requestId)
        with False Deliver JsonRpc show ?thesis
          by (simp add: core_run_jobs onNodeMessage_def del: handleNodeMethodResponse.simps)
      qed
    qed
  next
    case (NodeEvent r)
    show ?thesis
    proof (cases "rtype r \<in> set Node_ErrorType_values")
      case True
      with Deliver NodeEvent show ?thesis
        by (simp add: core_run_jobs onNodeMessage_def)
    next
      case False
      with Deliver NodeEvent
      have "core (step e s) = core (handleNodeEvent now message s)"
        by (simp add: core_run_jobs onNodeMessage_def)
      with core_handleNodeEvent [of now message s] Deliver show ?thesis by auto
    qed
  qed
next
  case (Fire now k)
  then show ?thesis by (simp add: core_run_jobs)
qed

lemma core_settle:
  "core (settle q v s) = (requestListeners s, timers s, promises s, settled s @ [(q, v)])"
  by (simp add: core_def settle_def)

lemma handleNodeError_no_listener:
  assumes "\<not> (\<exists>requestId l. i = Some requestId \<and> requestId \<noteq> 0 \<and> requestListeners s requestId = Some l)"
  shows "handleNodeError (JsonRpc i r) s = emit (rtype r) (Raw r) s"
proof (cases i)
  case None
  then show ?thesis by simp
next
  case (Some requestId)
  with assms have "requestId = 0 \<or> requestListeners s requestId = None" by auto
  with Some show ?thesis by auto
qed

lemma handleNodeError_listener:
  assumes "requestId \<noteq> 0" and "requestListeners s requestId = Some l"
  shows "\<exists>v. core (handleNodeError (JsonRpc (Some requestId) r) s) =
           ((requestListeners s)(requestId := None), timers s, promises s,
            settled s @ [(l_promise l, v)])"
proof -
  from listener_settles [of l r s] obtain v where v: "listener l r s = settle (l_promise l) v s" ..
  have "core (handleNodeError (JsonRpc (Some requestId) r) s) =
           ((requestListeners s)(requestId := None), timers s, promises s,
            settled s @ [(l_promise l, v)])"
    using assms by (simp add: v core_def emit_def settle_def)
  then show ?thesis ..
qed

lemma handleNodeMethodResponse_listener:
  assumes "requestListeners s requestId = Some l"
  shows "\<exists>v. core (handleNodeMethodResponse (JsonRpc (Some requestId) r) s) =
           ((requestListeners s)(requestId := None), timers s, promises s,
            settled s @ [(l_promise l, v)])"
proof -
  from listener_settles [of l r s] obtain v where v: "listener l r s = settle (l_promise l) v s" ..
  have "core (handleNodeMethodResponse (JsonRpc (Some requestId) r) s) =
           ((requestListeners s)(requestId := None), timers s, promises s,
            settled s @ [(l_promise l, v)])"
    using assms by (simp add: v core_def settle_def)
  then show ?thesis ..
qed

lemma sent_handleNodeError: "sent (handleNodeError m s) = sent s"
proof (cases m)
  case (NodeEvent r)
  then show ?thesis by simp
next
  case (JsonRpc i r)
  show ?thesis
  proof (cases "\<exists>requestId l. i = Some requestId \<and> requestId \<noteq> 0 \<and> requestListeners s requestId = Some l")
    case False
    from handleNodeError_no_listener [OF this] show ?thesis
      unfolding JsonRpc by (simp add: emit_def)
  next
    case True
    then obtain requestId l where i: "i = Some requestId" and nz: "requestId \<noteq> 0"
      and l: "requestListeners s requestId = Some l" by blast
    from listener_settles [of l r s] obtain v where "listener l r s = settle (l_promise l) v s" ..
    with nz l show ?thesis unfolding JsonRpc i by (simp add: emit_def settle_def)
  qed
qed

lemma emitted_handleNodeError:
  "emitted (handleNodeError (JsonRpc i r) s) = emitted s @ [(rtype r, Raw r)]"
proof (cases "\<exists>requestId l. i = Some requestId \<and> requestId \<noteq> 0 \<and> requestListeners s requestId = Some l")
  case False
  from handleNodeError_no_listener [OF this] show ?thesis by (simp add: emit_def)
next
  case True
  then obtain requestId l where i: "i = Some requestId" and nz: "requestId \<noteq> 0"
    and l: "requestListeners s requestId = Some l" by blast
  from listener_settles [of l r s] obtain v where "listener l r s = settle (l_promise l) v s" ..
  with nz l show ?thesis unfolding i by (simp add: emit_def settle_def)
qed

lemma timers_handleNodeError: "timers (handleNodeError m s) = timers s"
proof (cases m)
  case (NodeEvent r)
  then show ?thesis by simp
next
  case (JsonRpc i r)
  show ?thesis
  proof (cases "\<exists>requestId l. i = Some requestId \<and> requestId \<noteq> 0 \<and> requestListeners s requestId = Some l")
    case False
    from handleNodeError_no_listener [OF this] show ?thesis
      unfolding JsonRpc by (simp add: emit_def)
  next
    case True
    then obtain requestId l where i: "i = Some requestId" and nz: "requestId \<noteq> 0"
      and l: "requestListeners s requestId = Some l" by blast
    from handleNodeError_listener [OF nz l, of r] show ?thesis
      unfolding JsonRpc i by (auto simp add: core_def)
  qed
qed

lemma set_remove_nth: "set (take k xs @ drop (Suc k) xs) \<subseteq> set xs"
  using set_take_subset [of k xs] set_drop_subset [of "Suc k" xs] by auto

lemma filter_remove_nth:
  assumes "k < length xs" and "\<not> P (xs ! k)"
  shows "filter P (take k xs @ drop (Suc k) xs) = filter P xs"
proof -
  from assms(1) have "xs = take k xs @ xs ! k # drop (Suc k) xs" by (rule id_take_nth_drop)
  then have "filter P xs = filter P (take k xs @ xs ! k # drop (Suc k) xs)" by simp
  with assms(2) show ?thesis by simp
qed

lemma filter_remove_nth_only:
  assumes k: "k < length xs" and only: "filter P xs = [xs ! k]"
  shows "filter P (take k xs @ drop (Suc k) xs) = []"
proof -
  from k have split: "xs = take k xs @ xs ! k # drop (Suc k) xs" by (rule id_take_nth_drop)
  from k have "xs ! k \<in> set xs" by simp
  moreover from only have "xs ! k \<in> set (filter P xs)" by simp
  ultimately have P: "P (xs ! k)" by simp
  have "filter P xs = filter P (take k xs) @ filter P (xs ! k # drop (Suc k) xs)"
    using split by (metis filter_append)
  with P only have "filter P (take k xs) @ xs ! k # filter P (drop (Suc k) xs) = [xs ! k]"
    by simp
  then have "filter P (take k xs) = [] \<and> filter P (drop (Suc k) xs) = []"
    by (cases "filter P (take k xs)") simp_all
  then show ?thesis by simp
qed

subsection \<open>Reachable providers are consistent\<close>

lemma consistent_core: "core s' = core s \<Longrightarrow> consistent s' = consistent s"
  by (simp add: core_def consistent_def)

lemma consistent_after_listener:
  assumes "consistent s" and "requestListeners s q = Some l"
    and "core s' = ((requestListeners s)(q := None), timers s, promises s,
            settled s @ [(l_promise l, v)])"
  shows "consistent s'"
proof -
  from assms(3) have rl: "requestListeners s' = (requestListeners s)(q := None)"
    and tm: "timers s' = timers s" and pr: "promises s' = promises s"
    and st: "settled s' = settled s @ [(l_promise l, v)]"
    by (simp_all add: core_def)
  from assms(1,2) have "l_promise l < promises s" by (simp add: consistent_def)
  with assms(1) show ?thesis
    unfolding consistent_def rl tm pr st by (simp split: if_splits)
qed

lemma consistent_handleNodeError:
  assumes "consistent s"
  shows "consistent (handleNodeError m s)"
proof (cases m)
  case (NodeEvent r)
  with assms show ?thesis by (simp add: consistent_def)
next
  case (JsonRpc i r)
  show ?thesis
  proof (cases "\<exists>requestId l. i = Some requestId \<and> requestId \<noteq> 0 \<and> requestListeners s requestId = Some l")
    case False
    from handleNodeError_no_listener [OF this]
    have c: "core (handleNodeError m s) = core s"
      unfolding JsonRpc by (simp only: core_emit)
    from assms consistent_core [OF c] show ?thesis by simp
  next
    case True
    then obtain requestId l where i: "i = Some requestId" and nz: "requestId \<noteq> 0"
      and l: "requestListeners s requestId = Some l" by blast
    from handleNodeError_listener [OF nz l, of r] obtain v where
      "core (handleNodeError (JsonRpc (Some requestId) r) s) =
           ((requestListeners s)(requestId := None), timers s, promises s,
            settled s @ [(l_promise l, v)])" ..
    from consistent_after_listener [OF assms l this] show ?thesis
      unfolding JsonRpc i .
  qed
qed

lemma consistent_handleNodeMethodResponse:
  assumes "consistent s"
  shows "consistent (handleNodeMethodResponse (JsonRpc (Some q) r) s)"
proof (cases "requestListeners s q")
  case None
  then have c: "core (handleNodeMethodResponse (JsonRpc (Some q) r) s) = core s"
    by (simp add: core_emit Let_def)
  from assms consistent_core [OF c] show ?thesis by simp
next
  case (Some l)
  from handleNodeMethodResponse_listener [OF Some, of r] obtain v where
    "core (handleNodeMethodResponse (JsonRpc (Some q) r) s) =
         ((requestListeners s)(q := None), timers s, promises s,
          settled s @ [(l_promise l, v)])" ..
  from consistent_after_listener [OF assms Some this] show ?thesis .
qed

lemma consistent_fire:
  assumes "consistent s"
  shows "consistent (fire now k s)"
proof (cases "k < length (timers s) \<and> t_due (timers s ! k) \<le> now")
  case False
  then have "fire now k s = s" by (auto simp add: fire_def)
  with assms show ?thesis by simp
next
  case True
  let ?t = "timers s ! k"
  let ?s = "s\<lparr>timers := take k (timers s) @ drop (Suc k) (timers s)\<rparr>"
  from True have "?t \<in> set (timers s)" by simp
  with assms have lt: "t_promise ?t < promises s" by (simp add: consistent_def)
  from assms set_remove_nth [of k "timers s"] have c: "consistent ?s"
    by (auto simp add: consistent_def)
  from c lt have "consistent (timeout_callback ?t ?s)"
    by (auto simp add: timeout_callback_def consistent_def settle_def split: if_splits)
  with True show ?thesis by (simp add: fire_def)
qed

lemma consistent_callRawNodeMethod:
  assumes "consistent s"
  shows "consistent (snd (callRawNodeMethod now method params s))"
proof (cases "method = []")
  case True
  let ?s = "s\<lparr>promises := Suc (promises s)\<rparr>"
  from assms have "consistent ?s" by (auto simp add: consistent_def less_Suc_eq)
  from consistent_handleNodeError [OF this] True show ?thesis
    by (simp add: callRawNodeMethod_def jsonRpcDeserialize_def Let_def
        del: handleNodeError.simps)
next
  case False
  with assms show ?thesis
    by (auto simp add: callRawNodeMethod_def jsonRpcDeserialize_def Let_def
        consistent_def less_Suc_eq)
qed

lemma consistent_step:
  assumes "consistent s"
  shows "consistent (step e s)"
proof -
  have any: "consistent s' \<Longrightarrow> core (step e s) = core s' \<Longrightarrow> consistent (step e s)" for s'
    using consistent_core [of "step e s" s'] by simp
  from core_step [of e s] show ?thesis
  proof (elim disjE exE conjE)
    assume "core (step e s) = core s"
    with any assms show ?thesis by simp
  next
    fix m ps
    assume "core (step e s) = core (snd (callRawNodeMethod (time_of e) m ps s))"
    with any consistent_callRawNodeMethod [OF assms] show ?thesis by blast
  next
    fix now i r
    assume "core (step e s) = core (handleNodeError (JsonRpc i r) s)"
    with any consistent_handleNodeError [OF assms] show ?thesis by blast
  next
    fix now i r
    assume "core (step e s) = core (handleNodeMethodResponse (JsonRpc (Some i) r) s)"
    with any consistent_handleNodeMethodResponse [OF assms] show ?thesis by blast
  next
    fix now k
    assume "core (step e s) = core (fire now k s)"
    with any consistent_fire [OF assms] show ?thesis by blast
  qed
qed

lemma consistent_run: "consistent s \<Longrightarrow> consistent (run evs s)"
  by (induction evs arbitrary: s) (simp_all add: consistent_step)

lemma consistent_reachable: "consistent (run evs new_Provider)"
  by (rule consistent_run) (simp add: consistent_def new_Provider_def)

subsection \<open>A promise that nothing refers to is never settled\<close>

lemma unreferenced_core: "core s' = core s \<Longrightarrow> unreferenced p s' = unreferenced p s"
  by (simp add: core_def unreferenced_def)

lemma settlements_core: "core s' = core s \<Longrightarrow> settlements p s' = settlements p s"
  by (simp add: core_def settlements_def)

lemma unreferenced_after_listener:
  assumes "unreferenced p s" and "requestListeners s requestId = Some l"
    and "core s' = ((requestListeners s)(requestId := None), timers s, promises s,
            settled s @ [(l_promise l, v)])"
  shows "unreferenced p s' \<and> settlements p s' = settlements p s"
proof -
  from assms(3) have rl: "requestListeners s' = (requestListeners s)(requestId := None)"
    and tm: "timers s' = timers s" and pr: "promises s' = promises s"
    and st: "settled s' = settled s @ [(l_promise l, v)]"
    by (simp_all add: core_def)
  from assms(1,2) have ne: "l_promise l \<noteq> p" by (simp add: unreferenced_def)
  have "unreferenced p s'"
    using assms(1) unfolding unreferenced_def rl tm pr by (simp split: if_splits)
  moreover have "settlements p s' = settlements p s"
    unfolding settlements_def st using ne by simp
  ultimately show ?thesis ..
qed

lemma still_handleNodeError:
  assumes "unreferenced p s"
  shows "unreferenced p (handleNodeError m s) \<and> settlements p (handleNodeError m s) = settlements p s"
proof (cases m)
  case (NodeEvent r)
  with assms show ?thesis by (simp add: unreferenced_def settlements_def)
next
  case (JsonRpc i r)
  show ?thesis
  proof (cases "\<exists>requestId l. i = Some requestId \<and> requestId \<noteq> 0 \<and> requestListeners s requestId = Some l")
    case False
    from handleNodeError_no_listener [OF this]
    have c: "core (handleNodeError m s) = core s"
      unfolding JsonRpc by (simp only: core_emit)
    from assms unreferenced_core [OF c] settlements_core [OF c] show ?thesis by simp
  next
    case True
    then obtain requestId l where i: "i = Some requestId" and nz: "requestId \<noteq> 0"
      and l: "requestListeners s requestId = Some l" by blast
    from handleNodeError_listener [OF nz l, of r] obtain v where
      "core (handleNodeError (JsonRpc (Some requestId) r) s) =
           ((requestListeners s)(requestId := None), timers s, promises s,
            settled s @ [(l_promise l, v)])" ..
    from unreferenced_after_listener [OF assms l this] show ?thesis
      unfolding JsonRpc i .
  qed
qed

lemma still_handleNodeMethodResponse:
  assumes "unreferenced p s"
  shows "unreferenced p (handleNodeMethodResponse (JsonRpc (Some requestId) r) s)
         \<and> settlements p (handleNodeMethodResponse (JsonRpc (Some requestId) r) s) = settlements p s"
proof (cases "requestListeners s requestId")
  case None
  then have c: "core (handleNodeMethodResponse (JsonRpc (Some requestId) r) s) = core s"
    by (simp add: core_emit Let_def)
  from assms unreferenced_core [OF c] settlements_core [OF c] show ?thesis by simp
next
  case (Some l)
  from listener_settles [of l r s] obtain v where v: "listener l r s = settle (l_promise l) v s" ..
  have "core (handleNodeMethodResponse (JsonRpc (Some requestId) r) s) =
           ((requestListeners s)(requestId := None), timers s, promises s,
            settled s @ [(l_promise l, v)])"
    using Some by (simp add: v core_def settle_def)
  from unreferenced_after_listener [OF assms Some this] show ?thesis .
qed

lemma still_timeout_callback:
  assumes "unreferenced p s" and "t_promise t \<noteq> p"
  shows "unreferenced p (timeout_callback t s)
         \<and> settlements p (timeout_callback t s) = settlements p s"
  using assms
  by (simp add: timeout_callback_def unreferenced_def settlements_def settle_def)

lemma still_fire:
  assumes "unreferenced p s"
  shows "unreferenced p (fire now k s) \<and> settlements p (fire now k s) = settlements p s"
proof (cases "k < length (timers s) \<and> t_due (timers s ! k) \<le> now")
  case False
  then have "fire now k s = s" by (auto simp add: fire_def)
  with assms show ?thesis by simp
next
  case True
  let ?s = "s\<lparr>timers := take k (timers s) @ drop (Suc k) (timers s)\<rparr>"
  from True have mem: "timers s ! k \<in> set (timers s)" by simp
  with assms have ne: "t_promise (timers s ! k) \<noteq> p" by (simp add: unreferenced_def)
  from assms set_remove_nth [of k "timers s"] have u: "unreferenced p ?s"
    by (auto simp add: unreferenced_def)
  have st: "settlements p ?s = settlements p s" by (simp add: settlements_def)
  from still_timeout_callback [OF u ne] st True show ?thesis by (simp add: fire_def)
qed

lemma still_callRawNodeMethod:
  assumes "unreferenced p s"
  shows "unreferenced p (snd (callRawNodeMethod now method params s))
         \<and> settlements p (snd (callRawNodeMethod now method params s)) = settlements p s"
proof (cases "method = []")
  case True
  let ?s = "s\<lparr>promises := Suc (promises s)\<rparr>"
  from assms have u: "unreferenced p ?s" by (simp add: unreferenced_def)
  have st: "settlements p ?s = settlements p s" by (simp add: settlements_def)
  from still_handleNodeError [OF u] st True show ?thesis
    by (simp add: callRawNodeMethod_def jsonRpcDeserialize_def Let_def
        del: handleNodeError.simps)
next
  case False
  with assms show ?thesis
    by (auto simp add: callRawNodeMethod_def jsonRpcDeserialize_def Let_def
        unreferenced_def settlements_def)
qed

lemma still_step:
  assumes "unreferenced p s"
  shows "unreferenced p (step e s) \<and> settlements p (step e s) = settlements p s"
proof -
  have any: "unreferenced p s' \<and> settlements p s' = settlements p s
      \<Longrightarrow> core (step e s) = core s'
      \<Longrightarrow> unreferenced p (step e s) \<and> settlements p (step e s) = settlements p s" for s'
    using unreferenced_core [of "step e s" s' p] settlements_core [of "step e s" s' p] by simp
  from core_step [of e s] show ?thesis
  proof (elim disjE exE conjE)
    assume "core (step e s) = core s"
    with any [of s] assms show ?thesis by simp
  next
    fix m ps
    assume "core (step e s) = core (snd (callRawNodeMethod (time_of e) m ps s))"
    with any still_callRawNodeMethod [OF assms] show ?thesis by blast
  next
    fix now i r
    assume "core (step e s) = core (handleNodeError (JsonRpc i r) s)"
    with any still_handleNodeError [OF assms] show ?thesis by blast
  next
    fix now i r
    assume "core (step e s) = core (handleNodeMethodResponse (JsonRpc (Some i) r) s)"
    with any still_handleNodeMethodResponse [OF assms] show ?thesis by blast
  next
    fix now k
    assume "core (step e s) = core (fire now k s)"
    with any still_fire [OF assms] show ?thesis by blast
  qed
qed

lemma still_run:
  assumes "unreferenced p s"
  shows "unreferenced p (run evs s) \<and> settlements p (run evs s) = settlements p s"
  using assms
proof (induction evs arbitrary: s)
  case Nil
  then show ?case by simp
next
  case (Cons e evs)
  from still_step [OF Cons.prems, of e] Cons.IH [of "step e s"] show ?case by simp
qed

text \<open>
  C9, on the code: a call whose method name is empty sends nothing, arms no timer and emits
  an \<open>unexpected_event_type\<close> error under the ERROR topic. Its promise is not settled with
  a failure: \<open>handleNodeError\<close> runs before a listener for the call is stored, so neither
  \<open>resolve\<close> nor \<open>reject\<close> of the promise is held by anything, and whatever happens
  afterwards the promise is never settled.
\<close>

theorem C9_unresolvable_method_never_settles:
  assumes cons: "consistent s"
    and call: "callRawNodeMethod now [] params s = (p, s1)"
  shows "sent s1 = sent s
         \<and> timers s1 = timers s
         \<and> emitted s1 = emitted s @
             [(EventType_ERROR,
               Raw (NodeResult EventType_ERROR (ErrorData ''unexpected_event_type'' None)))]
         \<and> (\<forall>evs. settlements p (run evs s1) = [])"
proof -
  let ?e = "JsonRpc (Some now)
              (NodeResult EventType_ERROR (ErrorData ''unexpected_event_type'' None))"
  let ?s0 = "s\<lparr>promises := Suc (promises s)\<rparr>"
  from call have p: "p = promises s" and s1: "s1 = handleNodeError ?e ?s0"
    by (auto simp add: callRawNodeMethod_def jsonRpcDeserialize_def Let_def
        simp del: handleNodeError.simps)
  from cons have u0: "unreferenced p ?s0"
    unfolding consistent_def unreferenced_def p by fastforce
  from cons have "filter (\<lambda>x. fst x = p) (settled s) = []"
    unfolding consistent_def p by (fastforce simp add: filter_empty_conv)
  then have st0: "settlements p ?s0 = []" by (simp add: settlements_def)
  from still_handleNodeError [OF u0, of ?e] st0
  have u1: "unreferenced p s1" and st1: "settlements p s1 = []"
    unfolding s1 by simp_all
  from still_run [OF u1] st1 have never: "\<forall>evs. settlements p (run evs s1) = []" by simp
  have "sent s1 = sent s" unfolding s1 by (simp only: sent_handleNodeError) simp
  moreover have "timers s1 = timers s" unfolding s1 by (simp only: timers_handleNodeError) simp
  moreover have "emitted s1 = emitted s @
      [(EventType_ERROR, Raw (NodeResult EventType_ERROR (ErrorData ''unexpected_event_type'' None)))]"
    unfolding s1 by (simp only: emitted_handleNodeError) simp
  ultimately show ?thesis using never by simp
qed

theorem C9_unresolvable_method_never_settles_witness:
  "consistent new_Provider
   \<and> callRawNodeMethod 1000 [] (OtherParams []) new_Provider =
       (0, snd (callRawNodeMethod 1000 [] (OtherParams []) new_Provider))
   \<and> sent (snd (callRawNodeMethod 1000 [] (OtherParams []) new_Provider)) = []
   \<and> (\<forall>evs. settlements 0
         (run evs (snd (callRawNodeMethod 1000 [] (OtherParams []) new_Provider))) = [])"
proof -
  let ?s1 = "snd (callRawNodeMethod 1000 [] (OtherParams []) new_Provider)"
  have h1: "consistent new_Provider" by (simp add: consistent_def new_Provider_def)
  have h2: "callRawNodeMethod 1000 [] (OtherParams []) new_Provider = (0, ?s1)"
    by (simp add: eval_defs)
  have "sent new_Provider = []" by (simp add: new_Provider_def)
  with C9_unresolvable_method_never_settles [OF h1 h2] h1 h2 show ?thesis by simp
qed

text \<open>
  C1, on the code: two calls made in the same millisecond share the request id. The second
  overwrites the listener of the first; with no response, the timer of the first call finds
  an entry, rejects the first promise and deletes the entry, which is the listener of the
  second call; the timer of the second call then finds nothing. The second promise is settled
  zero times then, and since nothing refers to it any more, it is never settled afterwards.
\<close>

theorem C1_calls_of_one_millisecond:
  "settled (run [Call 1000 ''chan_deposit'' (OtherParams ''a''),
                 Call 1000 ''chan_withdraw'' (OtherParams ''b''),
                 Fire 31000 0, Fire 31000 0] new_Provider) =
     [(0, Rejected (NodeEvent (NodeResult EventType_ERROR
            (ErrorData ''request_timeout''
               (Some (RequestTimedOut
                  \<lparr>methodName = ''chan_deposit'', parameters = OtherParams ''a'',
                    request_id = 1000\<rparr>))))))]
   \<and> sent (run [Call 1000 ''chan_deposit'' (OtherParams ''a''),
                 Call 1000 ''chan_withdraw'' (OtherParams ''b''),
                 Fire 31000 0, Fire 31000 0] new_Provider) =
     [\<lparr>methodName = ''chan_deposit'', parameters = OtherParams ''a'', request_id = 1000\<rparr>,
      \<lparr>methodName = ''chan_withdraw'', parameters = OtherParams ''b'', request_id = 1000\<rparr>]
   \<and> (\<forall>evs. settlements 1
         (run evs (run [Call 1000 ''chan_deposit'' (OtherParams ''a''),
                        Call 1000 ''chan_withdraw'' (OtherParams ''b''),
                        Fire 31000 0, Fire 31000 0] new_Provider)) = [])"
proof -
  let ?s = "run [Call 1000 ''chan_deposit'' (OtherParams ''a''),
                 Call 1000 ''chan_withdraw'' (OtherParams ''b''),
                 Fire 31000 0, Fire 31000 0] new_Provider"
  have st: "settled ?s =
     [(0, Rejected (NodeEvent (NodeResult EventType_ERROR
            (ErrorData ''request_timeout''
               (Some (RequestTimedOut
                  \<lparr>methodName = ''chan_deposit'', parameters = OtherParams ''a'',
                    request_id = 1000\<rparr>))))))]"
    by (simp add: eval_defs)
  have sn: "sent ?s =
     [\<lparr>methodName = ''chan_deposit'', parameters = OtherParams ''a'', request_id = 1000\<rparr>,
      \<lparr>methodName = ''chan_withdraw'', parameters = OtherParams ''b'', request_id = 1000\<rparr>]"
    by (simp add: eval_defs)
  have rl: "requestListeners ?s = Map.empty" by (simp add: eval_defs)
  have tm: "timers ?s = []" by (simp add: eval_defs)
  have pr: "promises ?s = 2" by (simp add: eval_defs)
  have u: "unreferenced 1 ?s" unfolding unreferenced_def rl tm pr by simp
  have "settlements 1 ?s = []" unfolding settlements_def st by simp
  with still_run [OF u] have "\<forall>evs. settlements 1 (run evs ?s) = []" by simp
  with st sn show ?thesis by simp
qed

text \<open>
  C2, on the code: of two calls made in the same millisecond, with method names that resolve,
  both are sent and neither gets a response. When the budget of 30 seconds is over, the timer
  of the first call finds the entry (by then the listener of the second call), rejects the
  first promise with the timeout and deletes the entry; the timer of the second call finds
  nothing. The second call has had no response within the budget and its promise is not
  rejected with \<open>request_timeout\<close>, then or ever.
\<close>

theorem C2_unanswered_call_never_times_out:
  assumes m1: "m1 \<noteq> []" and m2: "m2 \<noteq> []"
    and s: "s = run [Call now m1 p1, Call now m2 p2,
                     Fire (now + NODE_REQUEST_TIMEOUT) 0, Fire (now + NODE_REQUEST_TIMEOUT) 0]
                  new_Provider"
  shows "sent s = [jsonRpcDeserialize m1 p1 now, jsonRpcDeserialize m2 p2 now]
         \<and> timers s = []
         \<and> settled s =
             [(0, Rejected (NodeEvent (NodeResult EventType_ERROR
                    (ErrorData ''request_timeout''
                       (Some (RequestTimedOut (jsonRpcDeserialize m1 p1 now)))))))]
         \<and> (\<forall>evs. settlements 1 (run evs s) = [])"
proof -
  have sn: "sent s = [jsonRpcDeserialize m1 p1 now, jsonRpcDeserialize m2 p2 now]"
    unfolding s using m1 m2 by (simp add: eval_defs)
  have tm: "timers s = []" unfolding s using m1 m2 by (simp add: eval_defs)
  have st: "settled s =
             [(0, Rejected (NodeEvent (NodeResult EventType_ERROR
                    (ErrorData ''request_timeout''
                       (Some (RequestTimedOut (jsonRpcDeserialize m1 p1 now)))))))]"
    unfolding s using m1 m2 by (simp add: eval_defs)
  have rl: "requestListeners s = Map.empty" unfolding s using m1 m2 by (simp add: eval_defs)
  have pr: "promises s = 2" unfolding s using m1 m2 by (simp add: eval_defs)
  have u: "unreferenced 1 s" unfolding unreferenced_def rl tm pr by simp
  have "settlements 1 s = []" unfolding settlements_def st by simp
  with still_run [OF u] have "\<forall>evs. settlements 1 (run evs s) = []" by simp
  with sn tm st show ?thesis by simp
qed

theorem C2_unanswered_call_never_times_out_witness:
  "''chan_install'' \<noteq> [] \<and> ''chan_rejectInstall'' \<noteq> []
   \<and> sent (run [Call 5000 ''chan_install'' (OtherParams ''a''),
                 Call 5000 ''chan_rejectInstall'' (OtherParams ''b''),
                 Fire (5000 + NODE_REQUEST_TIMEOUT) 0, Fire (5000 + NODE_REQUEST_TIMEOUT) 0]
              new_Provider) =
       [\<lparr>methodName = ''chan_install'', parameters = OtherParams ''a'', request_id = 5000\<rparr>,
        \<lparr>methodName = ''chan_rejectInstall'', parameters = OtherParams ''b'',
          request_id = 5000\<rparr>]
   \<and> (\<forall>evs. settlements 1
         (run evs (run [Call 5000 ''chan_install'' (OtherParams ''a''),
                        Call 5000 ''chan_rejectInstall'' (OtherParams ''b''),
                        Fire (5000 + NODE_REQUEST_TIMEOUT) 0,
                        Fire (5000 + NODE_REQUEST_TIMEOUT) 0] new_Provider)) = [])"
proof -
  have h1: "''chan_install'' \<noteq> []" and h2: "''chan_rejectInstall'' \<noteq> []" by simp_all
  from C2_unanswered_call_never_times_out [OF h1 h2 refl, of 5000 "OtherParams ''a''"
      "OtherParams ''b''"] h1 h2
  show ?thesis by (simp add: jsonRpcDeserialize_def)
qed

text \<open>
  C3, on the code: of two calls made in the same millisecond, the second overwrites the
  listener of the first. A response with their id and the type of the second call is
  correlated with the first call as much as with the second, and its type tag differs from
  the method of the first call and is no error tag; it resolves the second promise, and the
  first promise is not rejected with \<open>unexpected_message_type\<close>, then or ever.
\<close>

theorem C3_overwritten_call_not_rejected:
  assumes m1: "m1 \<noteq> []" and m2: "m2 \<noteq> []"
    and differs: "m2 \<noteq> m1" and not_error: "m2 \<notin> set Node_ErrorType_values"
    and s: "s = run [Call now m1 p1, Call now m2 p2,
                     Deliver later (JsonRpc (Some now) (NodeResult m2 d)),
                     Fire (now + NODE_REQUEST_TIMEOUT) 0, Fire (now + NODE_REQUEST_TIMEOUT) 0]
                  new_Provider"
  shows "settled s = [(1, Resolved (NodeResult m2 d))]
         \<and> thrown s = []
         \<and> (\<forall>evs. settlements 0 (run evs s) = [])"
proof -
  from not_error have ne: "m2 \<noteq> ''error''"
    by (simp add: Node_ErrorType_values_def Node_ErrorType_ERROR_def)
  have st: "settled s = [(1, Resolved (NodeResult m2 d))]"
    unfolding s using m1 m2 ne
    by (simp add: eval_defs onNodeMessage_def listener_def)
  have th: "thrown s = []"
    unfolding s using m1 m2 ne
    by (simp add: eval_defs onNodeMessage_def listener_def)
  have rl: "requestListeners s = Map.empty"
    unfolding s using m1 m2 ne
    by (simp add: eval_defs onNodeMessage_def listener_def)
  have tm: "timers s = []"
    unfolding s using m1 m2 ne
    by (simp add: eval_defs onNodeMessage_def listener_def)
  have pr: "promises s = 2"
    unfolding s using m1 m2 ne
    by (simp add: eval_defs onNodeMessage_def listener_def)
  have u: "unreferenced 0 s" unfolding unreferenced_def rl tm pr by simp
  have "settlements 0 s = []" unfolding settlements_def st by simp
  with still_run [OF u] have "\<forall>evs. settlements 0 (run evs s) = []" by simp
  with st th show ?thesis by simp
qed

theorem C3_overwritten_call_not_rejected_witness:
  "''chan_install'' \<noteq> [] \<and> ''chan_rejectInstall'' \<noteq> []
   \<and> ''chan_rejectInstall'' \<noteq> ''chan_install''
   \<and> ''chan_rejectInstall'' \<notin> set Node_ErrorType_values
   \<and> settled (run [Call 5000 ''chan_install'' (OtherParams ''a''),
                    Call 5000 ''chan_rejectInstall'' (OtherParams ''b''),
                    Deliver 5200 (JsonRpc (Some 5000)
                                    (NodeResult ''chan_rejectInstall'' (OtherData ''ok''))),
                    Fire (5000 + NODE_REQUEST_TIMEOUT) 0, Fire (5000 + NODE_REQUEST_TIMEOUT) 0]
                 new_Provider) =
       [(1, Resolved (NodeResult ''chan_rejectInstall'' (OtherData ''ok'')))]
   \<and> (\<forall>evs. settlements 0
         (run evs (run [Call 5000 ''chan_install'' (OtherParams ''a''),
                        Call 5000 ''chan_rejectInstall'' (OtherParams ''b''),
                        Deliver 5200 (JsonRpc (Some 5000)
                                        (NodeResult ''chan_rejectInstall'' (OtherData ''ok''))),
                        Fire (5000 + NODE_REQUEST_TIMEOUT) 0,
                        Fire (5000 + NODE_REQUEST_TIMEOUT) 0] new_Provider)) = [])"
proof -
  have h1: "''chan_install'' \<noteq> []" and h2: "''chan_rejectInstall'' \<noteq> []"
    and h3: "''chan_rejectInstall'' \<noteq> ''chan_install''" by simp_all
  have h4: "''chan_rejectInstall'' \<notin> set Node_ErrorType_values" by (simp add: eval_defs)
  from C3_overwritten_call_not_rejected [OF h1 h2 h3 h4 refl, of 5000 "OtherParams ''a''"
      "OtherParams ''b''" 5200 "OtherData ''ok''"] h1 h2 h3 h4
  show ?thesis by simp
qed

subsection \<open>A call in flight stays in flight until it is answered or times out\<close>

lemma pending_call_core: "core s' = core s \<Longrightarrow> pending_call p i l0 t0 s' = pending_call p i l0 t0 s"
  by (simp add: core_def pending_call_def settlements_def)

lemma pending_call_other_listener:
  assumes K: "pending_call p i l0 t0 s" and q: "q \<noteq> i" and l: "requestListeners s q = Some l"
    and c: "core s' = ((requestListeners s)(q := None), timers s, promises s,
                        settled s @ [(l_promise l, v)])"
  shows "pending_call p i l0 t0 s'"
proof -
  from c have rl: "requestListeners s' = (requestListeners s)(q := None)"
    and tm: "timers s' = timers s" and pr: "promises s' = promises s"
    and st: "settled s' = settled s @ [(l_promise l, v)]"
    by (simp_all add: core_def)
  from K q l have ne: "l_promise l \<noteq> p" by (auto simp add: pending_call_def)
  show ?thesis
    using K q ne unfolding pending_call_def rl tm pr settlements_def st
    by (simp split: if_splits)
qed

lemma pending_call_handleNodeError:
  assumes K: "pending_call p i l0 t0 s" and j: "j \<noteq> Some i"
  shows "pending_call p i l0 t0 (handleNodeError (JsonRpc j r) s)"
proof (cases "\<exists>requestId l. j = Some requestId \<and> requestId \<noteq> 0 \<and> requestListeners s requestId = Some l")
  case False
  from handleNodeError_no_listener [OF this]
  have c: "core (handleNodeError (JsonRpc j r) s) = core s" by (simp only: core_emit)
  from K pending_call_core [OF c] show ?thesis by simp
next
  case True
  then obtain requestId l where i: "j = Some requestId" and nz: "requestId \<noteq> 0"
    and l: "requestListeners s requestId = Some l" by blast
  from j i have q: "requestId \<noteq> i" by simp
  from handleNodeError_listener [OF nz l, of r] obtain v where
    "core (handleNodeError (JsonRpc (Some requestId) r) s) =
         ((requestListeners s)(requestId := None), timers s, promises s,
          settled s @ [(l_promise l, v)])" ..
  from pending_call_other_listener [OF K q l this] show ?thesis unfolding i .
qed

lemma pending_call_handleNodeMethodResponse:
  assumes K: "pending_call p i l0 t0 s" and q: "q \<noteq> i"
  shows "pending_call p i l0 t0 (handleNodeMethodResponse (JsonRpc (Some q) r) s)"
proof (cases "requestListeners s q")
  case None
  then have c: "core (handleNodeMethodResponse (JsonRpc (Some q) r) s) = core s"
    by (simp add: core_emit Let_def)
  from K pending_call_core [OF c] show ?thesis by simp
next
  case (Some l)
  from handleNodeMethodResponse_listener [OF Some, of r] obtain v where
    "core (handleNodeMethodResponse (JsonRpc (Some q) r) s) =
         ((requestListeners s)(q := None), timers s, promises s,
          settled s @ [(l_promise l, v)])" ..
  from pending_call_other_listener [OF K q Some this] show ?thesis .
qed

lemma pending_call_fire:
  assumes K: "pending_call p i l0 t0 s" and early: "now < t_due t0"
  shows "pending_call p i l0 t0 (fire now k s)"
proof (cases "k < length (timers s) \<and> t_due (timers s ! k) \<le> now")
  case False
  then have "fire now k s = s" by (auto simp add: fire_def)
  with K show ?thesis by simp
next
  case True
  let ?t = "timers s ! k"
  let ?s = "s\<lparr>timers := take k (timers s) @ drop (Suc k) (timers s)\<rparr>"
  from True have k: "k < length (timers s)" and mem: "?t \<in> set (timers s)" by simp_all
  from True early have ne: "?t \<noteq> t0" by auto
  have np: "t_promise ?t \<noteq> p"
  proof
    assume "t_promise ?t = p"
    with mem have "?t \<in> set (filter (\<lambda>t. t_promise t = p) (timers s))" by simp
    with K ne show False by (simp add: pending_call_def)
  qed
  from K mem ne have ni: "t_requestId ?t \<noteq> i" by (auto simp add: pending_call_def)
  have flt: "filter (\<lambda>t. t_promise t = p) (timers ?s) = filter (\<lambda>t. t_promise t = p) (timers s)"
    using filter_remove_nth [OF k, of "\<lambda>t. t_promise t = p"] np by simp
  have sub: "set (timers ?s) \<subseteq> set (timers s)"
    using set_remove_nth [of k "timers s"] by simp
  have K': "pending_call p i l0 t0 ?s"
    unfolding pending_call_def flt using K sub
    by (auto simp add: pending_call_def settlements_def)
  have "pending_call p i l0 t0 (timeout_callback ?t ?s)"
  proof (cases "requestListeners ?s (t_requestId ?t)")
    case None
    with K' show ?thesis by (simp add: timeout_callback_def)
  next
    case (Some l)
    with K' ni np show ?thesis
      by (auto simp add: timeout_callback_def pending_call_def settlements_def settle_def)
  qed
  with True show ?thesis by (simp add: fire_def)
qed

lemma pending_call_callRawNodeMethod:
  assumes K: "pending_call p i l0 t0 s" and now: "now \<noteq> i"
  shows "pending_call p i l0 t0 (snd (callRawNodeMethod now method params s))"
proof (cases "method = []")
  case True
  let ?s = "s\<lparr>promises := Suc (promises s)\<rparr>"
  from K have K': "pending_call p i l0 t0 ?s" by (simp add: pending_call_def settlements_def)
  from now have "Some now \<noteq> Some i" by simp
  from pending_call_handleNodeError [OF K' this] True show ?thesis
    by (simp add: callRawNodeMethod_def jsonRpcDeserialize_def Let_def
        del: handleNodeError.simps)
next
  case False
  with K now show ?thesis
    by (auto simp add: callRawNodeMethod_def jsonRpcDeserialize_def Let_def
        pending_call_def settlements_def)
qed

lemma pending_call_step:
  assumes K: "pending_call p i l0 t0 s"
    and e: "time_of e \<noteq> i" "time_of e < t_due t0" "\<not> addressed i e"
  shows "pending_call p i l0 t0 (step e s)"
proof -
  have any: "pending_call p i l0 t0 s' \<Longrightarrow> core (step e s) = core s'
      \<Longrightarrow> pending_call p i l0 t0 (step e s)" for s'
    using pending_call_core [of "step e s" s' p i l0 t0] by simp
  from core_step [of e s] show ?thesis
  proof (elim disjE exE conjE)
    assume "core (step e s) = core s"
    with any K show ?thesis by simp
  next
    fix m ps
    assume "core (step e s) = core (snd (callRawNodeMethod (time_of e) m ps s))"
    with any pending_call_callRawNodeMethod [OF K e(1)] show ?thesis by blast
  next
    fix now j r
    assume "e = Deliver now (JsonRpc j r)"
      and c: "core (step e s) = core (handleNodeError (JsonRpc j r) s)"
    with e(3) have "j \<noteq> Some i" by simp
    from any [OF pending_call_handleNodeError [OF K this] c] show ?thesis .
  next
    fix now q r
    assume "e = Deliver now (JsonRpc (Some q) r)"
      and c: "core (step e s) = core (handleNodeMethodResponse (JsonRpc (Some q) r) s)"
    with e(3) have "q \<noteq> i" by simp
    from any [OF pending_call_handleNodeMethodResponse [OF K this] c] show ?thesis .
  next
    fix now k
    assume "e = Fire now k" and c: "core (step e s) = core (fire now k s)"
    with e(2) have "now < t_due t0" by simp
    from any [OF pending_call_fire [OF K this] c] show ?thesis .
  qed
qed

lemma pending_call_run:
  assumes "pending_call p i l0 t0 s"
    and "\<forall>e \<in> set evs. time_of e \<noteq> i \<and> time_of e < t_due t0 \<and> \<not> addressed i e"
  shows "pending_call p i l0 t0 (run evs s)"
  using assms
proof (induction evs arbitrary: s)
  case Nil
  then show ?case by simp
next
  case (Cons e evs)
  from Cons.prems have "pending_call p i l0 t0 (step e s)"
    by (simp add: pending_call_step)
  with Cons show ?case by simp
qed

lemma callRawNodeMethod_pending_call:
  assumes cons: "consistent s"
    and fresh: "\<forall>t \<in> set (timers s). t_requestId t \<noteq> now"
    and resolvable: "method \<noteq> []"
    and call: "callRawNodeMethod now method params s = (p, s1)"
  shows "pending_call p now
           \<lparr>l_methodName = method, l_requestId = now, l_promise = p\<rparr>
           \<lparr>t_due = now + NODE_REQUEST_TIMEOUT, t_requestId = now, t_promise = p,
             t_request = jsonRpcDeserialize method params now\<rparr> s1"
proof -
  from call resolvable have p: "p = promises s"
    and s1: "s1 = s\<lparr>promises := Suc (promises s),
        requestListeners := (requestListeners s)(now \<mapsto>
            \<lparr>l_methodName = method, l_requestId = now, l_promise = p\<rparr>),
        timers := timers s @
            [\<lparr>t_due = now + NODE_REQUEST_TIMEOUT, t_requestId = now, t_promise = p,
              t_request = jsonRpcDeserialize method params now\<rparr>],
        sent := sent s @ [jsonRpcDeserialize method params now]\<rparr>"
    by (auto simp add: callRawNodeMethod_def jsonRpcDeserialize_def Let_def)
  from cons have old_l: "\<And>j l. requestListeners s j = Some l \<Longrightarrow> l_promise l \<noteq> p"
    and old_t: "\<And>t. t \<in> set (timers s) \<Longrightarrow> t_promise t \<noteq> p"
    and old_s: "\<And>x. x \<in> set (settled s) \<Longrightarrow> fst x \<noteq> p"
    unfolding consistent_def p by fastforce+
  from old_t have flt: "filter (\<lambda>t. t_promise t = p) (timers s) = []"
    by (simp add: filter_empty_conv)
  from old_s have st: "filter (\<lambda>x. fst x = p) (settled s) = []"
    by (simp add: filter_empty_conv)
  show ?thesis
    unfolding pending_call_def settlements_def s1
    using old_l fresh flt st p by auto
qed

lemma pending_call_timeout:
  assumes K: "pending_call p i l0 t0 s"
    and t0: "t_requestId t0 = i" "t_promise t0 = p"
    and due: "t_due t0 \<le> now"
  shows "\<exists>k < length (timers s). timers s ! k = t0
           \<and> requestListeners (step (Fire now k) s) i = None
           \<and> unreferenced p (step (Fire now k) s)
           \<and> settlements p (step (Fire now k) s) =
               [Rejected (NodeEvent (NodeResult EventType_ERROR
                  (ErrorData ''request_timeout'' (Some (RequestTimedOut (t_request t0))))))]"
proof -
  from K have "t0 \<in> set (filter (\<lambda>t. t_promise t = p) (timers s))"
    by (simp add: pending_call_def)
  then have "t0 \<in> set (timers s)" by simp
  then obtain k where k: "k < length (timers s)" and tk: "timers s ! k = t0"
    by (auto simp add: in_set_conv_nth)
  let ?s = "s\<lparr>timers := take k (timers s) @ drop (Suc k) (timers s)\<rparr>"
  let ?s3 = "timeout_callback t0 ?s"
  from K have only: "filter (\<lambda>t. t_promise t = p) (timers s) = [timers s ! k]"
    by (simp add: pending_call_def tk)
  have gone: "filter (\<lambda>t. t_promise t = p) (timers ?s) = []"
    using filter_remove_nth_only [OF k only] by simp
  from K have pend: "requestListeners ?s i = Some l0" by (simp add: pending_call_def)
  have fired: "fire now k s = ?s3"
    using k tk due by (simp add: fire_def)
  have c: "core (step (Fire now k) s) = core ?s3"
    by (simp add: core_run_jobs fired)
  have rl: "requestListeners ?s3 = (requestListeners s)(i := None)"
    using pend t0 by (simp add: timeout_callback_def settle_def)
  have tm: "timers ?s3 = timers ?s"
    using pend t0 by (simp add: timeout_callback_def settle_def)
  have pr: "promises ?s3 = promises s"
    using pend t0 by (simp add: timeout_callback_def settle_def)
  have st: "settlements p ?s3 =
      [Rejected (NodeEvent (NodeResult EventType_ERROR
         (ErrorData ''request_timeout'' (Some (RequestTimedOut (t_request t0))))))]"
    using pend t0 K by (simp add: timeout_callback_def settle_def settlements_def pending_call_def)
  from gone have no_t: "\<forall>t \<in> set (timers ?s). t_promise t \<noteq> p"
    by (auto simp add: filter_empty_conv)
  have u: "unreferenced p ?s3"
    unfolding unreferenced_def rl tm pr using K no_t
    by (auto simp add: pending_call_def split: if_splits)
  from c have "requestListeners (step (Fire now k) s) = requestListeners ?s3"
    by (simp add: core_def)
  with rl have "requestListeners (step (Fire now k) s) i = None" by simp
  moreover from u unreferenced_core [OF c] have "unreferenced p (step (Fire now k) s)" by simp
  moreover from st settlements_core [OF c] have "settlements p (step (Fire now k) s) =
      [Rejected (NodeEvent (NodeResult EventType_ERROR
         (ErrorData ''request_timeout'' (Some (RequestTimedOut (t_request t0))))))]" by simp
  ultimately show ?thesis using k tk by blast
qed

lemma timeout_after_quiet_turns:
  assumes cons: "consistent s"
    and fresh: "\<forall>t \<in> set (timers s). t_requestId t \<noteq> now"
    and resolvable: "method \<noteq> []"
    and call: "callRawNodeMethod now method params s = (p, s1)"
    and quiet: "\<forall>e \<in> set evs. time_of e \<noteq> now \<and> time_of e < now + NODE_REQUEST_TIMEOUT
                  \<and> \<not> addressed now e"
    and late: "now + NODE_REQUEST_TIMEOUT \<le> now'"
  shows "settlements p (run evs s1) = []
         \<and> requestListeners (run evs s1) now \<noteq> None
         \<and> (\<exists>k < length (timers (run evs s1)).
               timers (run evs s1) ! k =
                 \<lparr>t_due = now + NODE_REQUEST_TIMEOUT, t_requestId = now, t_promise = p,
                   t_request = jsonRpcDeserialize method params now\<rparr>
               \<and> requestListeners (step (Fire now' k) (run evs s1)) now = None
               \<and> (\<forall>evs'. settlements p (run evs' (step (Fire now' k) (run evs s1))) =
                    [Rejected (NodeEvent (NodeResult EventType_ERROR
                       (ErrorData ''request_timeout''
                          (Some (RequestTimedOut (jsonRpcDeserialize method params now))))))]))"
proof -
  let ?l0 = "\<lparr>l_methodName = method, l_requestId = now, l_promise = p\<rparr>"
  let ?t0 = "\<lparr>t_due = now + NODE_REQUEST_TIMEOUT, t_requestId = now, t_promise = p,
               t_request = jsonRpcDeserialize method params now\<rparr>"
  let ?s2 = "run evs s1"
  have K1: "pending_call p now ?l0 ?t0 s1"
    using cons fresh resolvable call by (rule callRawNodeMethod_pending_call)
  from quiet have "\<forall>e \<in> set evs. time_of e \<noteq> now \<and> time_of e < t_due ?t0 \<and> \<not> addressed now e"
    by simp
  with K1 have K2: "pending_call p now ?l0 ?t0 ?s2" by (rule pending_call_run)
  then have none: "settlements p ?s2 = []" and pend: "requestListeners ?s2 now \<noteq> None"
    by (simp_all add: pending_call_def)
  from late have due: "t_due ?t0 \<le> now'" by simp
  from pending_call_timeout [OF K2 _ _ due]
  obtain k where k: "k < length (timers ?s2)" and tk: "timers ?s2 ! k = ?t0"
    and rl: "requestListeners (step (Fire now' k) ?s2) now = None"
    and u: "unreferenced p (step (Fire now' k) ?s2)"
    and st: "settlements p (step (Fire now' k) ?s2) =
               [Rejected (NodeEvent (NodeResult EventType_ERROR
                  (ErrorData ''request_timeout'' (Some (RequestTimedOut (t_request ?t0))))))]"
    by auto
  from still_run [OF u] st
  have forever: "\<forall>evs'. settlements p (run evs' (step (Fire now' k) ?s2)) =
      [Rejected (NodeEvent (NodeResult EventType_ERROR
         (ErrorData ''request_timeout''
            (Some (RequestTimedOut (jsonRpcDeserialize method params now))))))]"
    by simp
  from k tk rl forever none pend show ?thesis
    by (metis (no_types, lifting))
qed

lemma timeout_callback_pending:
  assumes "requestListeners s (t_requestId t) \<noteq> None"
  shows "settled (timeout_callback t s) =
           settled s @
             [(t_promise t,
               Rejected (NodeEvent (NodeResult EventType_ERROR
                 (ErrorData ''request_timeout'' (Some (RequestTimedOut (t_request t)))))))]
         \<and> requestListeners (timeout_callback t s) (t_requestId t) = None"
  using assms by (simp add: timeout_callback_def settle_def)

lemma fire_pending:
  assumes k: "k < length (timers s)" and pend: "requestListeners s (t_requestId (timers s ! k)) \<noteq> None"
  shows "(now < t_due (timers s ! k) \<longrightarrow> fire now k s = s)
         \<and> (t_due (timers s ! k) \<le> now \<longrightarrow>
              settled (fire now k s) =
                settled s @
                  [(t_promise (timers s ! k),
                    Rejected (NodeEvent (NodeResult EventType_ERROR
                      (ErrorData ''request_timeout''
                         (Some (RequestTimedOut (t_request (timers s ! k))))))))]
              \<and> requestListeners (fire now k s) (t_requestId (timers s ! k)) = None)"
proof -
  let ?s = "s\<lparr>timers := take k (timers s) @ drop (Suc k) (timers s)\<rparr>"
  from pend have "requestListeners ?s (t_requestId (timers s ! k)) \<noteq> None" by simp
  from timeout_callback_pending [OF this] k show ?thesis
    by (auto simp add: fire_def)
qed

text \<open>
  What the timer of a call does. A call with a method name that resolves, made at clock value
  \<open>now\<close>, sends its request and arms a timer due at \<open>now + 30000\<close> that holds the
  request. That timer does nothing before it is due. When it fires and there is an entry
  under the id of the call, the entry is removed and the promise is rejected with a
  \<open>request_timeout\<close> error whose message carries the request. And when the request id is
  the call's alone (on a consistent provider in which no armed timer belongs to request id
  \<open>now\<close>, and with no later turn at the clock value \<open>now\<close>), then after any turns
  before \<open>now + 30000\<close>, none of them a message with the id of the call, the promise is
  still unsettled, the entry is there and the timer armed; firing it rejects the promise with
  the timeout, and that rejection stays the only settlement of the promise whatever happens
  afterwards.
\<close>

lemma timer_rejects_pending_call:
  assumes resolvable: "method \<noteq> []"
    and call: "callRawNodeMethod now method params s = (p, s1)"
    and t0: "t0 = \<lparr>t_due = now + 30000, t_requestId = now, t_promise = p,
                    t_request = jsonRpcDeserialize method params now\<rparr>"
    and timeout: "timeout = Rejected (NodeEvent (NodeResult EventType_ERROR
                    (ErrorData ''request_timeout''
                       (Some (RequestTimedOut (jsonRpcDeserialize method params now))))))"
  shows "NODE_REQUEST_TIMEOUT = 30000
         \<and> timers s1 = timers s @ [t0]
         \<and> sent s1 = sent s @ [jsonRpcDeserialize method params now]
         \<and> (\<forall>s2 k now'.
               k < length (timers s2) \<and> timers s2 ! k = t0 \<and> requestListeners s2 now \<noteq> None \<longrightarrow>
                 (now' < now + 30000 \<longrightarrow> fire now' k s2 = s2)
                 \<and> (now + 30000 \<le> now' \<longrightarrow>
                      settled (fire now' k s2) = settled s2 @ [(p, timeout)]
                      \<and> requestListeners (fire now' k s2) now = None))
         \<and> (\<forall>evs now'.
               consistent s \<and> (\<forall>t \<in> set (timers s). t_requestId t \<noteq> now)
               \<and> (\<forall>e \<in> set evs. time_of e \<noteq> now \<and> time_of e < now + 30000
                     \<and> \<not> addressed now e)
               \<and> now + 30000 \<le> now' \<longrightarrow>
                 settlements p (run evs s1) = []
                 \<and> requestListeners (run evs s1) now \<noteq> None
                 \<and> (\<exists>k < length (timers (run evs s1)).
                       timers (run evs s1) ! k = t0
                       \<and> requestListeners (step (Fire now' k) (run evs s1)) now = None
                       \<and> (\<forall>evs'. settlements p
                              (run evs' (step (Fire now' k) (run evs s1))) = [timeout])))"
proof -
  have T: "NODE_REQUEST_TIMEOUT = 30000" by (simp add: NODE_REQUEST_TIMEOUT_def)
  from call resolvable have tm: "timers s1 = timers s @ [t0]"
    and sn: "sent s1 = sent s @ [jsonRpcDeserialize method params now]"
    unfolding t0
    by (auto simp add: callRawNodeMethod_def jsonRpcDeserialize_def Let_def
        NODE_REQUEST_TIMEOUT_def)
  have fire: "\<forall>s2 k now'.
      k < length (timers s2) \<and> timers s2 ! k = t0 \<and> requestListeners s2 now \<noteq> None \<longrightarrow>
        (now' < now + 30000 \<longrightarrow> fire now' k s2 = s2)
        \<and> (now + 30000 \<le> now' \<longrightarrow>
             settled (fire now' k s2) = settled s2 @ [(p, timeout)]
             \<and> requestListeners (fire now' k s2) now = None)"
  proof (intro allI impI)
    fix s2 :: Provider and k now' :: nat
    assume a: "k < length (timers s2) \<and> timers s2 ! k = t0 \<and> requestListeners s2 now \<noteq> None"
    then have k: "k < length (timers s2)" and tk: "timers s2 ! k = t0" by simp_all
    from a tk have "requestListeners s2 (t_requestId (timers s2 ! k)) \<noteq> None"
      by (simp add: t0)
    from fire_pending [OF k this, of now']
    show "(now' < now + 30000 \<longrightarrow> fire now' k s2 = s2)
        \<and> (now + 30000 \<le> now' \<longrightarrow>
             settled (fire now' k s2) = settled s2 @ [(p, timeout)]
             \<and> requestListeners (fire now' k s2) now = None)"
      unfolding tk by (simp add: t0 timeout)
  qed
  have trace: "\<forall>evs now'.
      consistent s \<and> (\<forall>t \<in> set (timers s). t_requestId t \<noteq> now)
      \<and> (\<forall>e \<in> set evs. time_of e \<noteq> now \<and> time_of e < now + 30000 \<and> \<not> addressed now e)
      \<and> now + 30000 \<le> now' \<longrightarrow>
        settlements p (run evs s1) = []
        \<and> requestListeners (run evs s1) now \<noteq> None
        \<and> (\<exists>k < length (timers (run evs s1)).
              timers (run evs s1) ! k = t0
              \<and> requestListeners (step (Fire now' k) (run evs s1)) now = None
              \<and> (\<forall>evs'. settlements p
                     (run evs' (step (Fire now' k) (run evs s1))) = [timeout]))"
  proof (intro allI impI)
    fix evs :: "Input list" and now' :: nat
    assume a: "consistent s \<and> (\<forall>t \<in> set (timers s). t_requestId t \<noteq> now)
      \<and> (\<forall>e \<in> set evs. time_of e \<noteq> now \<and> time_of e < now + 30000 \<and> \<not> addressed now e)
      \<and> now + 30000 \<le> now'"
    then have cons: "consistent s" and fresh: "\<forall>t \<in> set (timers s). t_requestId t \<noteq> now"
      and quiet: "\<forall>e \<in> set evs. time_of e \<noteq> now \<and> time_of e < now + NODE_REQUEST_TIMEOUT
                    \<and> \<not> addressed now e"
      and late: "now + NODE_REQUEST_TIMEOUT \<le> now'"
      by (simp_all add: T)
    from timeout_after_quiet_turns [OF cons fresh resolvable call quiet late]
    show "settlements p (run evs s1) = []
        \<and> requestListeners (run evs s1) now \<noteq> None
        \<and> (\<exists>k < length (timers (run evs s1)).
              timers (run evs s1) ! k = t0
              \<and> requestListeners (step (Fire now' k) (run evs s1)) now = None
              \<and> (\<forall>evs'. settlements p
                     (run evs' (step (Fire now' k) (run evs s1))) = [timeout]))"
      unfolding t0 timeout by (simp add: T)
  qed
  from T tm sn fire trace show ?thesis by (intro conjI)
qed

subsection \<open>A call that is answered is settled once\<close>

text \<open>
  The counterpart of the timeout: the listener of a call in flight is called by the response,
  which settles the promise and removes the entry. The timer of the call stays armed, and when
  it fires it finds no entry, as long as no later call has taken the same request id.
\<close>

lemma answered_call_core:
  "core s' = core s \<Longrightarrow> answered_call p i t0 v s' = answered_call p i t0 v s"
  by (simp add: core_def answered_call_def settlements_def)

lemma answered_call_other_listener:
  assumes A: "answered_call p i t0 v s" and l: "requestListeners s q = Some l"
    and c: "core s' = ((requestListeners s)(q := None), timers s, promises s,
                        settled s @ [(l_promise l, w)])"
  shows "answered_call p i t0 v s'"
proof -
  from c have rl: "requestListeners s' = (requestListeners s)(q := None)"
    and tm: "timers s' = timers s" and pr: "promises s' = promises s"
    and st: "settled s' = settled s @ [(l_promise l, w)]"
    by (simp_all add: core_def)
  from A l have ne: "l_promise l \<noteq> p" by (simp add: answered_call_def)
  show ?thesis
    using A ne unfolding answered_call_def rl tm pr settlements_def st
    by (simp split: if_splits)
qed

lemma answered_call_handleNodeError:
  assumes A: "answered_call p i t0 v s"
  shows "answered_call p i t0 v (handleNodeError (JsonRpc j r) s)"
proof (cases "\<exists>requestId l. j = Some requestId \<and> requestId \<noteq> 0 \<and> requestListeners s requestId = Some l")
  case False
  from handleNodeError_no_listener [OF this]
  have c: "core (handleNodeError (JsonRpc j r) s) = core s" by (simp only: core_emit)
  from A answered_call_core [OF c] show ?thesis by simp
next
  case True
  then obtain requestId l where i: "j = Some requestId" and nz: "requestId \<noteq> 0"
    and l: "requestListeners s requestId = Some l" by blast
  from handleNodeError_listener [OF nz l, of r] obtain w where
    "core (handleNodeError (JsonRpc (Some requestId) r) s) =
         ((requestListeners s)(requestId := None), timers s, promises s,
          settled s @ [(l_promise l, w)])" ..
  from answered_call_other_listener [OF A l this] show ?thesis unfolding i .
qed

lemma answered_call_handleNodeMethodResponse:
  assumes A: "answered_call p i t0 v s"
  shows "answered_call p i t0 v (handleNodeMethodResponse (JsonRpc (Some q) r) s)"
proof (cases "requestListeners s q")
  case None
  then have c: "core (handleNodeMethodResponse (JsonRpc (Some q) r) s) = core s"
    by (simp add: core_emit Let_def)
  from A answered_call_core [OF c] show ?thesis by simp
next
  case (Some l)
  from handleNodeMethodResponse_listener [OF Some, of r] obtain w where
    "core (handleNodeMethodResponse (JsonRpc (Some q) r) s) =
         ((requestListeners s)(q := None), timers s, promises s,
          settled s @ [(l_promise l, w)])" ..
  from answered_call_other_listener [OF A Some this] show ?thesis .
qed

lemma filter_remove_nth_cases:
  assumes k: "k < length xs" and one: "filter P xs = [x] \<or> filter P xs = []"
  shows "filter P (take k xs @ drop (Suc k) xs) = [x]
         \<or> filter P (take k xs @ drop (Suc k) xs) = []"
proof (cases "P (xs ! k)")
  case False
  with k have "filter P (take k xs @ drop (Suc k) xs) = filter P xs"
    by (rule filter_remove_nth)
  with one show ?thesis by simp
next
  case True
  from k have "xs ! k \<in> set xs" by simp
  with True have mem: "xs ! k \<in> set (filter P xs)" by simp
  from one mem have both: "xs ! k \<in> set [x] \<and> filter P xs = [x]" by (metis empty_iff empty_set)
  then have "xs ! k = x" by simp
  with both have only: "filter P xs = [xs ! k]" by simp
  from k only have "filter P (take k xs @ drop (Suc k) xs) = []"
    by (rule filter_remove_nth_only)
  then show ?thesis by simp
qed

lemma answered_call_fire:
  assumes A: "answered_call p i t0 v s" and t0: "t_requestId t0 = i"
  shows "answered_call p i t0 v (fire now k s)"
proof (cases "k < length (timers s) \<and> t_due (timers s ! k) \<le> now")
  case False
  then have "fire now k s = s" by (auto simp add: fire_def)
  with A show ?thesis by simp
next
  case True
  let ?t = "timers s ! k"
  let ?s = "s\<lparr>timers := take k (timers s) @ drop (Suc k) (timers s)\<rparr>"
  from True have k: "k < length (timers s)" and mem: "?t \<in> set (timers s)" by simp_all
  from A have one: "filter (\<lambda>t. t_promise t = p) (timers s) = [t0]
      \<or> filter (\<lambda>t. t_promise t = p) (timers s) = []"
    by (simp add: answered_call_def)
  from filter_remove_nth_cases [OF k one]
  have A': "answered_call p i t0 v ?s"
    using A by (simp add: answered_call_def settlements_def)
  have "answered_call p i t0 v (timeout_callback ?t ?s)"
  proof (cases "requestListeners ?s (t_requestId ?t)")
    case None
    with A' show ?thesis by (simp add: timeout_callback_def)
  next
    case (Some l)
    have np: "t_promise ?t \<noteq> p"
    proof
      assume "t_promise ?t = p"
      with mem have m: "?t \<in> set (filter (\<lambda>t. t_promise t = p) (timers s))" by simp
      from one m have "?t \<in> set [t0] \<or> ?t \<in> set []" by metis
      then have "?t = t0" by simp
      with t0 have "t_requestId ?t = i" by simp
      with A Some show False by (simp add: answered_call_def)
    qed
    with A' Some show ?thesis
      by (auto simp add: timeout_callback_def answered_call_def settlements_def settle_def)
  qed
  with True show ?thesis by (simp add: fire_def)
qed

lemma answered_call_callRawNodeMethod:
  assumes A: "answered_call p i t0 v s" and now: "now \<noteq> i"
  shows "answered_call p i t0 v (snd (callRawNodeMethod now method params s))"
proof (cases "method = []")
  case True
  let ?s = "s\<lparr>promises := Suc (promises s)\<rparr>"
  from A have A': "answered_call p i t0 v ?s" by (simp add: answered_call_def settlements_def)
  from answered_call_handleNodeError [OF A'] True show ?thesis
    by (simp add: callRawNodeMethod_def jsonRpcDeserialize_def Let_def
        del: handleNodeError.simps)
next
  case False
  with A now show ?thesis
    by (auto simp add: callRawNodeMethod_def jsonRpcDeserialize_def Let_def
        answered_call_def settlements_def)
qed

lemma answered_call_step:
  assumes A: "answered_call p i t0 v s" and t0: "t_requestId t0 = i"
    and e: "time_of e \<noteq> i"
  shows "answered_call p i t0 v (step e s)"
proof -
  have any: "answered_call p i t0 v s' \<Longrightarrow> core (step e s) = core s'
      \<Longrightarrow> answered_call p i t0 v (step e s)" for s'
    using answered_call_core [of "step e s" s' p i t0 v] by simp
  from core_step [of e s] show ?thesis
  proof (elim disjE exE conjE)
    assume "core (step e s) = core s"
    with any A show ?thesis by simp
  next
    fix m ps
    assume "core (step e s) = core (snd (callRawNodeMethod (time_of e) m ps s))"
    with any answered_call_callRawNodeMethod [OF A e] show ?thesis by blast
  next
    fix now j r
    assume "core (step e s) = core (handleNodeError (JsonRpc j r) s)"
    with any answered_call_handleNodeError [OF A] show ?thesis by blast
  next
    fix now q r
    assume "core (step e s) = core (handleNodeMethodResponse (JsonRpc (Some q) r) s)"
    with any answered_call_handleNodeMethodResponse [OF A] show ?thesis by blast
  next
    fix now k
    assume "core (step e s) = core (fire now k s)"
    with any answered_call_fire [OF A t0] show ?thesis by blast
  qed
qed

lemma answered_call_run:
  assumes "answered_call p i t0 v s" and "t_requestId t0 = i"
    and "\<forall>e \<in> set evs. time_of e \<noteq> i"
  shows "answered_call p i t0 v (run evs s)"
  using assms
proof (induction evs arbitrary: s)
  case Nil
  then show ?case by simp
next
  case (Cons e evs)
  from Cons.prems have "answered_call p i t0 v (step e s)"
    by (simp add: answered_call_step)
  with Cons show ?case by simp
qed

lemma pending_call_answered:
  assumes K: "pending_call p i l0 t0 s" and l0: "l_promise l0 = p"
    and c: "core s' = ((requestListeners s)(i := None), timers s, promises s,
                        settled s @ [(l_promise l0, v)])"
  shows "answered_call p i t0 v s'"
proof -
  from c have rl: "requestListeners s' = (requestListeners s)(i := None)"
    and tm: "timers s' = timers s" and pr: "promises s' = promises s"
    and st: "settled s' = settled s @ [(l_promise l0, v)]"
    by (simp_all add: core_def)
  from K have none: "filter (\<lambda>x. fst x = p) (settled s) = []"
    by (simp add: pending_call_def settlements_def)
  show ?thesis
    using K l0 none unfolding answered_call_def pending_call_def rl tm pr settlements_def st
    by auto
qed

lemma pending_call_response:
  assumes K: "pending_call p i l0 t0 s" and l0: "l_promise l0 = p"
    and answer: "i \<noteq> 0 \<or> rtype r \<notin> set Node_ErrorType_values"
  shows "\<exists>v. answered_call p i t0 v (step (Deliver now (JsonRpc (Some i) r)) s)"
proof -
  from K have l: "requestListeners s i = Some l0" by (simp add: pending_call_def)
  let ?m = "JsonRpc (Some i) r"
  have "\<exists>v. core (onNodeMessage now ?m s) =
      ((requestListeners s)(i := None), timers s, promises s, settled s @ [(l_promise l0, v)])"
  proof (cases "rtype r \<in> set Node_ErrorType_values")
    case True
    with answer have nz: "i \<noteq> 0" by simp
    from True have "onNodeMessage now ?m s = handleNodeError ?m s"
      by (simp add: onNodeMessage_def del: handleNodeError.simps)
    with handleNodeError_listener [OF nz l, of r] show ?thesis by simp
  next
    case False
    then have "onNodeMessage now ?m s = handleNodeMethodResponse ?m s"
      by (simp add: onNodeMessage_def del: handleNodeMethodResponse.simps)
    with handleNodeMethodResponse_listener [OF l, of r] show ?thesis by simp
  qed
  then obtain v where "core (step (Deliver now ?m) s) =
      ((requestListeners s)(i := None), timers s, promises s, settled s @ [(l_promise l0, v)])"
    by (auto simp add: core_run_jobs)
  from pending_call_answered [OF K l0 this] show ?thesis ..
qed

lemma response_settles_once:
  assumes cons: "consistent s"
    and fresh: "\<forall>t \<in> set (timers s). t_requestId t \<noteq> now"
    and resolvable: "method \<noteq> []"
    and call: "callRawNodeMethod now method params s = (p, s1)"
    and quiet: "\<forall>e \<in> set evs. time_of e \<noteq> now \<and> time_of e < now + NODE_REQUEST_TIMEOUT
                  \<and> \<not> addressed now e"
    and answer: "now \<noteq> 0 \<or> rtype r \<notin> set Node_ErrorType_values"
    and later: "\<forall>e \<in> set evs'. time_of e \<noteq> now"
  shows "\<exists>v. settlements p (run evs' (step (Deliver now' (JsonRpc (Some now) r)) (run evs s1))) = [v]"
proof -
  let ?l0 = "\<lparr>l_methodName = method, l_requestId = now, l_promise = p\<rparr>"
  let ?t0 = "\<lparr>t_due = now + NODE_REQUEST_TIMEOUT, t_requestId = now, t_promise = p,
               t_request = jsonRpcDeserialize method params now\<rparr>"
  have K1: "pending_call p now ?l0 ?t0 s1"
    using cons fresh resolvable call by (rule callRawNodeMethod_pending_call)
  from quiet have "\<forall>e \<in> set evs. time_of e \<noteq> now \<and> time_of e < t_due ?t0 \<and> \<not> addressed now e"
    by simp
  with K1 have K2: "pending_call p now ?l0 ?t0 (run evs s1)" by (rule pending_call_run)
  from pending_call_response [OF K2 _ answer, of now'] obtain v where
    "answered_call p now ?t0 v (step (Deliver now' (JsonRpc (Some now) r)) (run evs s1))"
    by auto
  from answered_call_run [OF this _ later]
  have "answered_call p now ?t0 v
          (run evs' (step (Deliver now' (JsonRpc (Some now) r)) (run evs s1)))"
    by simp
  then have "settlements p (run evs' (step (Deliver now' (JsonRpc (Some now) r)) (run evs s1))) = [v]"
    by (simp add: answered_call_def)
  then show ?thesis ..
qed

end
